theory Spec2Isabelle
  imports Complex_Main "HOL-Library.Multiset"
begin

section \<open>Domain model (internal/domain)\<close>

text \<open>
  \<^verbatim>\<open>uuid.UUID\<close> is a 128-bit value; only equality of identifiers is ever used, so it is
  a natural number here. Go's \<^verbatim>\<open>int\<close> is 64 bits wide. Every integer the selection code
  computes is a request count, a slice length, or a sum or difference of a few of those,
  and the only products (\<^verbatim>\<open>count * 3\<close>, \<^verbatim>\<open>count * 4\<close>) are taken when
  \<^verbatim>\<open>count <= 10\<close>, so Go's \<^verbatim>\<open>int\<close> is modelled by \<open>int\<close>.
\<close>

type_synonym UUID = nat

text \<open>\<^verbatim>\<open>type Difficulty string\<close> with its three constants (problem.go, lines 9-15).\<close>

type_synonym Difficulty = string

definition DifficultyEasy :: Difficulty where
  "DifficultyEasy = ''Easy''"

definition DifficultyMedium :: Difficulty where
  "DifficultyMedium = ''Medium''"

definition DifficultyHard :: Difficulty where
  "DifficultyHard = ''Hard''"

text \<open>\<^verbatim>\<open>func (d Difficulty) Weight() int\<close> (problem.go, lines 18-29).\<close>

definition Weight :: "Difficulty \<Rightarrow> int" where
  "Weight d =
     (if d = DifficultyEasy then 1
      else if d = DifficultyMedium then 2
      else if d = DifficultyHard then 3
      else 0)"

text \<open>
  \<^verbatim>\<open>type Problem struct\<close> (problem.go, lines 32-45). The two GORM association slices
  (\<^verbatim>\<open>ContestProblems\<close>, \<^verbatim>\<open>Submissions\<close>) are never read or written by the services
  modelled here and are left out.
\<close>

record Problem =
  ID :: UUID
  Title :: string
  Slug :: string
  Difficulty :: Difficulty
  Topics :: "string list"
  LeetCodeURL :: string
  NeetCodeURL :: string
  OrderIndex :: int

text \<open>
  The errors a call can end with: the two sentinel values of the domain package that the
  modelled services return (errors.go), an error handed back by a repository (the GORM
  error, kept as its message; it is never one of the sentinel values, which are created by
  \<^verbatim>\<open>errors.New\<close> in the domain package), and a Go run-time panic.
\<close>

datatype error =
    ErrNotEnoughProblems
  | ErrActiveContestExists
  | RepositoryError string
  | RuntimePanic string

section \<open>Go maps keyed by difficulty\<close>

text \<open>
  \<^verbatim>\<open>map[domain.Difficulty]int\<close> and \<^verbatim>\<open>map[domain.Difficulty][]domain.Problem\<close> are
  partial maps; reading a missing key yields the zero value (0, respectively the nil slice).
\<close>

definition getCount :: "(Difficulty \<rightharpoonup> int) \<Rightarrow> Difficulty \<Rightarrow> int" where
  "getCount m k = (case m k of None \<Rightarrow> 0 | Some v \<Rightarrow> v)"

definition getPool :: "(Difficulty \<rightharpoonup> Problem list) \<Rightarrow> Difficulty \<Rightarrow> Problem list" where
  "getPool m k = (case m k of None \<Rightarrow> [] | Some v \<Rightarrow> v)"

text \<open>Go's integer division truncates towards zero.\<close>

definition goDiv :: "int \<Rightarrow> int \<Rightarrow> int" where
  "goDiv a b = (if (a < 0) = (b < 0) then \<bar>a\<bar> div \<bar>b\<bar> else - (\<bar>a\<bar> div \<bar>b\<bar>))"

text \<open>The tier order used by both loops of problem_service.go (lines 168 and 240).\<close>

definition difficulties :: "Difficulty list" where
  "difficulties = [DifficultyEasy, DifficultyMedium, DifficultyHard]"

section \<open>calculateDistribution (problem_service.go, lines 210-248)\<close>

text \<open>The \<^verbatim>\<open>switch\<close> of lines 213-236, starting from the empty map of line 211.\<close>

definition distributionSwitch :: "int \<Rightarrow> (Difficulty \<rightharpoonup> int)" where
  "distributionSwitch cnt =
     (if cnt \<le> 3 then
        (let d = Map.empty(DifficultyEasy \<mapsto> cnt)
         in if cnt \<ge> 2
            then (d(DifficultyEasy \<mapsto> cnt - 1))(DifficultyMedium \<mapsto> 1)
            else d)
      else if cnt \<le> 5 then
        ((Map.empty(DifficultyEasy \<mapsto> 2))(DifficultyMedium \<mapsto> 2))
          (DifficultyHard \<mapsto> cnt - 4)
      else if cnt \<le> 10 then
        (let d1 = Map.empty(DifficultyEasy \<mapsto> goDiv (cnt * 3) 10);
             d2 = d1(DifficultyMedium \<mapsto> goDiv (cnt * 4) 10)
         in d2(DifficultyHard \<mapsto>
                 cnt - getCount d2 DifficultyEasy - getCount d2 DifficultyMedium))
      else
        (let d1 = Map.empty(DifficultyEasy \<mapsto> goDiv cnt 4);
             d2 = d1(DifficultyMedium \<mapsto> goDiv cnt 2)
         in d2(DifficultyHard \<mapsto>
                 cnt - getCount d2 DifficultyEasy - getCount d2 DifficultyMedium)))"

text \<open>The loop of lines 240-244: a tier whose entry reads 0 is set to 1.\<close>

fun ensureOnePerDifficulty :: "Difficulty list \<Rightarrow> (Difficulty \<rightharpoonup> int) \<Rightarrow> (Difficulty \<rightharpoonup> int)" where
  "ensureOnePerDifficulty [] distribution = distribution"
| "ensureOnePerDifficulty (diff # rest) distribution =
     ensureOnePerDifficulty rest
       (if getCount distribution diff = 0 then distribution(diff \<mapsto> 1) else distribution)"

definition calculateDistribution :: "int \<Rightarrow> (Difficulty \<rightharpoonup> int)" where
  "calculateDistribution cnt =
     (let distribution = distributionSwitch cnt
      in if cnt \<ge> 3 then ensureOnePerDifficulty difficulties distribution
         else distribution)"

text \<open>The three entries of a distribution, in the order Easy, Medium, Hard.\<close>

definition tierCounts :: "(Difficulty \<rightharpoonup> int) \<Rightarrow> int \<times> int \<times> int" where
  "tierCounts distribution =
     (getCount distribution DifficultyEasy,
      getCount distribution DifficultyMedium,
      getCount distribution DifficultyHard)"

text \<open>The total number of problems a distribution asks for.\<close>

definition distributionTotal :: "(Difficulty \<rightharpoonup> int) \<Rightarrow> int" where
  "distributionTotal distribution =
     getCount distribution DifficultyEasy + getCount distribution DifficultyMedium
       + getCount distribution DifficultyHard"

subsection \<open>The planner as the specification words it\<close>

text \<open>
  The policy table of the specification (section 4.1), written from its words, with its
  floors taken over the reals, and the floor-enforcement pass that follows it.
\<close>

definition spec_policy_table :: "int \<Rightarrow> int \<times> int \<times> int" where
  "spec_policy_table cnt =
     (if cnt \<le> 3 then
        (if cnt = 1 then (1, 0, 0) else (cnt - 1, 1, 0))
      else if cnt \<le> 5 then (2, 2, cnt - 4)
      else if cnt \<le> 10 then
        (let easy = \<lfloor>real_of_int cnt * 0.3\<rfloor>; medium = \<lfloor>real_of_int cnt * 0.4\<rfloor>
         in (easy, medium, cnt - easy - medium))
      else
        (let easy = \<lfloor>real_of_int cnt / 4\<rfloor>; medium = \<lfloor>real_of_int cnt / 2\<rfloor>
         in (easy, medium, cnt - easy - medium)))"

definition spec_bump :: "int \<Rightarrow> int" where
  "spec_bump v = (if v = 0 then 1 else v)"

definition spec_floor_enforcement :: "int \<Rightarrow> int \<times> int \<times> int \<Rightarrow> int \<times> int \<times> int" where
  "spec_floor_enforcement cnt t =
     (case t of (easy, medium, hard) \<Rightarrow>
        if cnt \<ge> 3 then (spec_bump easy, spec_bump medium, spec_bump hard)
        else (easy, medium, hard))"

definition spec_planDistribution :: "int \<Rightarrow> int \<times> int \<times> int" where
  "spec_planDistribution cnt = spec_floor_enforcement cnt (spec_policy_table cnt)"

section \<open>The random source (math/rand)\<close>

text \<open>
  \<^verbatim>\<open>s.rng\<close> is a \<^verbatim>\<open>*rand.Rand\<close> of Go's standard library, shared by all calls and
  guarded by \<^verbatim>\<open>s.rngMu\<close>. Its state is modelled by the sequence of raw values it is
  going to produce. \<^verbatim>\<open>Intn(n)\<close> panics when \<^verbatim>\<open>n <= 0\<close>; otherwise it returns a value
  in \<open>[0, n)\<close> and advances the source. Every sequence of results that \<^verbatim>\<open>Intn\<close> can
  give is given by some list; a list that has run out yields 0.
\<close>

type_synonym rng = "nat list"

definition Intn :: "int \<Rightarrow> rng \<Rightarrow> error + (int \<times> rng)" where
  "Intn n g =
     (if n \<le> 0 then Inl (RuntimePanic ''invalid argument to Intn'')
      else (case g of [] \<Rightarrow> Inr (0, []) | r # g' \<Rightarrow> Inr (int r mod n, g')))"

section \<open>randomSelect (problem_service.go, lines 252-270)\<close>

text \<open>
  The loop of lines 263-266 on the copy \<^verbatim>\<open>shuffled\<close>, from index \<open>i\<close> on. An index
  outside the slice is a run-time panic in Go.
\<close>

function shuffleLoop :: "nat \<Rightarrow> int \<Rightarrow> Problem list \<Rightarrow> rng \<Rightarrow> error + (Problem list \<times> rng)" where
  "shuffleLoop i n shuffled g =
     (if int i < n then
        (case Intn (int (length shuffled) - int i) g of
           Inl e \<Rightarrow> Inl e
         | Inr (r, g') \<Rightarrow>
             (let j = i + nat r
              in if i < length shuffled \<and> j < length shuffled
                 then shuffleLoop (Suc i) n
                        (shuffled[i := shuffled ! j, j := shuffled ! i]) g'
                 else Inl (RuntimePanic ''index out of range'')))
      else Inr (shuffled, g))"
  by pat_completeness auto
termination
  by (relation "measure (\<lambda>(i, n, shuffled, g). nat (n - int i))") auto

text \<open>
  \<^verbatim>\<open>shuffled[:n]\<close> panics for a negative \<open>n\<close>; \<open>n\<close> above the length cannot reach it,
  because of the early return of line 253.
\<close>

definition randomSelect :: "Problem list \<Rightarrow> int \<Rightarrow> rng \<Rightarrow> error + (Problem list \<times> rng)" where
  "randomSelect problems n g =
     (if n \<ge> int (length problems) then Inr (problems, g)
      else (case shuffleLoop 0 n problems g of
              Inl e \<Rightarrow> Inl e
            | Inr (shuffled, g') \<Rightarrow>
                if n < 0 then Inl (RuntimePanic ''slice bounds out of range'')
                else Inr (take (nat n) shuffled, g')))"

section \<open>sort.Slice\<close>

text \<open>
  \<^verbatim>\<open>sort.Slice\<close> belongs to Go's standard library. It reorders the slice so that it is
  sorted with respect to the given \<^verbatim>\<open>less\<close>; it is not stable. The model is an insertion
  sort. The results below rest on two facts only, that the outcome is a permutation of
  the input and that it is sorted; they say nothing on the order of elements that
  \<^verbatim>\<open>less\<close> does not separate.
\<close>

fun insertOrdered :: "('a \<Rightarrow> 'a \<Rightarrow> bool) \<Rightarrow> 'a \<Rightarrow> 'a list \<Rightarrow> 'a list" where
  "insertOrdered lt x [] = [x]"
| "insertOrdered lt x (y # ys) =
     (if lt y x then y # insertOrdered lt x ys else x # y # ys)"

definition sortSlice :: "('a \<Rightarrow> 'a \<Rightarrow> bool) \<Rightarrow> 'a list \<Rightarrow> 'a list" where
  "sortSlice lt xs = foldr (insertOrdered lt) xs []"

text \<open>The closure passed to \<^verbatim>\<open>sort.Slice\<close> at lines 196-198.\<close>

definition lessByWeight :: "Problem \<Rightarrow> Problem \<Rightarrow> bool" where
  "lessByWeight a b = (Weight (Difficulty a) < Weight (Difficulty b))"

section \<open>SelectProblemsForContest (problem_service.go, lines 94-206)\<close>

text \<open>
  The loop of lines 168-182 over the remaining tiers, with the list selected so far, the
  running shortfall and the random source.
\<close>

fun selectByDistribution ::
  "Difficulty list \<Rightarrow> (Difficulty \<rightharpoonup> int) \<Rightarrow> (Difficulty \<rightharpoonup> Problem list) \<Rightarrow>
   Problem list \<Rightarrow> int \<Rightarrow> rng \<Rightarrow> error + (Problem list \<times> int \<times> rng)" where
  "selectByDistribution [] distribution problemsByDifficulty selectedProblems shortfall g =
     Inr (selectedProblems, shortfall, g)"
| "selectByDistribution (diff # rest) distribution problemsByDifficulty selectedProblems shortfall g =
     (let needed = getCount distribution diff + shortfall;
          available = getPool problemsByDifficulty diff
      in if int (length available) < needed
         then selectByDistribution rest distribution problemsByDifficulty
                (selectedProblems @ available) (needed - int (length available)) g
         else (case randomSelect available needed g of
                 Inl e \<Rightarrow> Inl e
               | Inr (selected, g') \<Rightarrow>
                   selectByDistribution rest distribution problemsByDifficulty
                     (selectedProblems @ selected) 0 g'))"

text \<open>
  Lines 184-205, for a given distribution and given pools: the size check, the sort, the
  return. The two log calls have no effect on the result.
\<close>

definition assembleContest ::
  "(Difficulty \<rightharpoonup> int) \<Rightarrow> (Difficulty \<rightharpoonup> Problem list) \<Rightarrow> int \<Rightarrow> rng \<Rightarrow>
   (error + Problem list) \<times> rng" where
  "assembleContest distribution problemsByDifficulty cnt g =
     (case selectByDistribution difficulties distribution problemsByDifficulty [] 0 g of
        Inl e \<Rightarrow> (Inl e, g)
      | Inr (selectedProblems, shortfall, g') \<Rightarrow>
          if int (length selectedProblems) < cnt \<and> length selectedProblems = 0
          then (Inl ErrNotEnoughProblems, g')
          else (Inr (sortSlice lessByWeight selectedProblems), g'))"

text \<open>
  The one method of \<^verbatim>\<open>domain.ProblemRepository\<close> that the selection calls. It returns a
  slice and an error, as the Go method does.
\<close>

record ProblemRepository =
  FindUnsolvedByUserAndDifficulty :: "UUID \<Rightarrow> Difficulty \<Rightarrow> Problem list \<times> string option"

text \<open>\<^verbatim>\<open>type difficultyResult struct\<close> (lines 104-108).\<close>

record difficultyResult =
  difficulty :: Difficulty
  problems :: "Problem list"
  err :: "string option"

text \<open>The worker of lines 120-128: one fetch, one value sent on the channel.\<close>

definition fetchProblems :: "ProblemRepository \<Rightarrow> UUID \<Rightarrow> Difficulty \<Rightarrow> difficultyResult" where
  "fetchProblems problemRepo userID diff =
     (case FindUnsolvedByUserAndDifficulty problemRepo userID diff of
        (ps, e) \<Rightarrow> \<lparr>difficulty = diff, problems = ps, err = e\<rparr>)"

text \<open>
  The collecting loop of lines 143-153 over the values received from the channel, in the
  order they arrive: a result that carries an error is logged and skipped.
\<close>

fun collectResults ::
  "difficultyResult list \<Rightarrow> (Difficulty \<rightharpoonup> Problem list) \<Rightarrow> (Difficulty \<rightharpoonup> Problem list)" where
  "collectResults [] problemsByDifficulty = problemsByDifficulty"
| "collectResults (result # rest) problemsByDifficulty =
     (if err result \<noteq> None then collectResults rest problemsByDifficulty
      else collectResults rest
             (problemsByDifficulty(difficulty result \<mapsto> problems result)))"

text \<open>
  The three workers run concurrently, each sending one result; \<open>arrival\<close> is the order in
  which the results reach the collecting loop, a permutation of the three tiers.
\<close>

definition arrivalOrder :: "Difficulty list \<Rightarrow> bool" where
  "arrivalOrder arrival = (distinct arrival \<and> set arrival = set difficulties)"

text \<open>Lines 116-153: the fan-out, and the map built from what the channel delivers.\<close>

definition fetchByDifficulty ::
  "ProblemRepository \<Rightarrow> Difficulty list \<Rightarrow> UUID \<Rightarrow> (Difficulty \<rightharpoonup> Problem list)" where
  "fetchByDifficulty problemRepo arrival userID =
     collectResults (map (fetchProblems problemRepo userID) arrival) Map.empty"

definition SelectProblemsForContest ::
  "ProblemRepository \<Rightarrow> Difficulty list \<Rightarrow> rng \<Rightarrow> UUID \<Rightarrow> int \<Rightarrow> (error + Problem list) \<times> rng" where
  "SelectProblemsForContest problemRepo arrival g userID cnt =
     (let problemsByDifficulty = fetchByDifficulty problemRepo arrival userID;
          distribution = calculateDistribution cnt
      in assembleContest distribution problemsByDifficulty cnt g)"

subsection \<open>Notions used to state the properties of the selection\<close>

text \<open>
  One tier of the sampler as the specification words it (section 4.3, steps 2a to 2c):
  with \<open>needed\<close> problems wanted from \<open>pool\<close>, either the pool is too small, all of it
  is taken and the deficit is the new shortfall, or exactly \<open>needed\<close> problems are drawn
  from the pool without replacement and the shortfall is reset.
\<close>

definition spec_tier_step :: "int \<Rightarrow> Problem list \<Rightarrow> Problem list \<Rightarrow> int \<Rightarrow> bool" where
  "spec_tier_step needed pool taken shortfall' =
     (if int (length pool) < needed
      then taken = pool \<and> shortfall' = needed - int (length pool)
      else int (length taken) = needed \<and> mset taken \<subseteq># mset pool \<and> shortfall' = 0)"

text \<open>
  The pool the sampler works with for a tier: the slice the repository returned, or the
  empty slice when the fetch of that tier reported an error (its map entry is never set).
\<close>

definition fetchedPool :: "ProblemRepository \<Rightarrow> UUID \<Rightarrow> Difficulty \<Rightarrow> Problem list" where
  "fetchedPool problemRepo userID diff =
     (case FindUnsolvedByUserAndDifficulty problemRepo userID diff of
        (ps, None) \<Rightarrow> ps
      | (ps, Some e) \<Rightarrow> [])"

text \<open>The number of problems of a tier in a list, and the weights of a list.\<close>

definition tierSize :: "Difficulty \<Rightarrow> Problem list \<Rightarrow> nat" where
  "tierSize diff ps = length (filter (\<lambda>p. Difficulty p = diff) ps)"

definition weights :: "Problem list \<Rightarrow> int list" where
  "weights ps = map (\<lambda>p. Weight (Difficulty p)) ps"

text \<open>Catalogue entries and repositories for concrete runs.\<close>

definition sampleProblem :: "Difficulty \<Rightarrow> UUID \<Rightarrow> Problem" where
  "sampleProblem diff i =
     \<lparr>ID = i, Title = [], Slug = [], Difficulty = diff, Topics = [],
      LeetCodeURL = [], NeetCodeURL = [], OrderIndex = int i\<rparr>"

definition samplePools :: "UUID list \<Rightarrow> UUID list \<Rightarrow> UUID list \<Rightarrow> (Difficulty \<rightharpoonup> Problem list)" where
  "samplePools es ms hs =
     ((Map.empty(DifficultyEasy \<mapsto> map (sampleProblem DifficultyEasy) es))
        (DifficultyMedium \<mapsto> map (sampleProblem DifficultyMedium) ms))
        (DifficultyHard \<mapsto> map (sampleProblem DifficultyHard) hs)"

definition sampleRepository :: "(Difficulty \<rightharpoonup> Problem list) \<Rightarrow> ProblemRepository" where
  "sampleRepository pools =
     \<lparr>FindUnsolvedByUserAndDifficulty =
        (\<lambda>userID diff. case pools diff of
                          None \<Rightarrow> ([], Some ''connection refused'')
                        | Some ps \<Rightarrow> (ps, None))\<rparr>"


definition levelDistribution :: "int \<Rightarrow> (Difficulty \<rightharpoonup> int)" where
  "levelDistribution n =
     ((Map.empty(DifficultyEasy \<mapsto> n))(DifficultyMedium \<mapsto> n))(DifficultyHard \<mapsto> n)"

section \<open>Contests (internal/domain, contest.go)\<close>

text \<open>\<^verbatim>\<open>type ContestStatus string\<close> with its three constants (lines 10-16).\<close>

type_synonym ContestStatus = string

definition ContestStatusActive :: ContestStatus where
  "ContestStatusActive = ''active''"

definition ContestStatusCompleted :: ContestStatus where
  "ContestStatusCompleted = ''completed''"

definition ContestStatusAbandoned :: ContestStatus where
  "ContestStatusAbandoned = ''abandoned''"

text \<open>
  A \<^verbatim>\<open>time.Time\<close> is an instant, counted in nanoseconds from the zero value of the type;
  \<^verbatim>\<open>Add\<close> and \<^verbatim>\<open>After\<close> are exact on instants. A \<^verbatim>\<open>time.Duration\<close> is an
  \<^verbatim>\<open>int64\<close> number of nanoseconds, and arithmetic on it wraps around at 64 bits.
\<close>

type_synonym Time = int

definition zeroTime :: Time where
  "zeroTime = 0"

definition Minute :: int where
  "Minute = 60000000000"

text \<open>The value a signed 64-bit integer holds after an operation whose exact result is \<open>x\<close>.\<close>

definition wrap64 :: "int \<Rightarrow> int" where
  "wrap64 x = (x + 2 ^ 63) mod 2 ^ 64 - 2 ^ 63"

text \<open>\<^verbatim>\<open>type ContestProblem struct\<close> (lines 40-48).\<close>

record ContestProblem =
  ContestID :: UUID
  ProblemID :: UUID
  Order :: int
  IsCompleted :: bool
  Problem :: Problem

text \<open>
  \<^verbatim>\<open>type Contest struct\<close> (lines 19-32), without the \<^verbatim>\<open>User\<close> association, which
  the contest service never touches. A nil \<^verbatim>\<open>*time.Time\<close> is \<open>None\<close>.
\<close>

record Contest =
  ID :: UUID
  UserID :: UUID
  DurationMinutes :: int
  StartedAt :: Time
  EndedAt :: "Time option"
  Status :: ContestStatus
  CreatedAt :: Time
  UpdatedAt :: Time
  ContestProblems :: "ContestProblem list"

text \<open>\<^verbatim>\<open>type CreateContestRequest struct\<close> (lines 69-72).\<close>

record CreateContestRequest =
  ProblemCount :: int
  DurationMinutes :: int

text \<open>
  \<^verbatim>\<open>func (c *Contest) IsExpired() bool\<close> (lines 125-131); \<open>now\<close> is what
  \<^verbatim>\<open>time.Now()\<close> returns inside it. The product of line 129,
  \<^verbatim>\<open>time.Duration(c.DurationMinutes) * time.Minute\<close>, is a 64-bit product: it wraps
  around once the duration passes 153722867 minutes in either direction.
\<close>

definition IsExpired :: "Contest \<Rightarrow> Time \<Rightarrow> bool" where
  "IsExpired c now =
     (if Status c \<noteq> ContestStatusActive then False
      else (let endTime = StartedAt c + wrap64 (Contest.DurationMinutes c * Minute)
            in now > endTime))"

text \<open>
  The methods of \<^verbatim>\<open>domain.ContestRepository\<close> that \<^verbatim>\<open>CreateContest\<close> calls, over a
  database state \<open>'db\<close>. A Go \<^verbatim>\<open>error\<close> result is \<open>string option\<close>, \<open>None\<close> for nil.
  \<^verbatim>\<open>Create\<close> writes the generated key into the contest it is given, so it hands the
  contest back. \<^verbatim>\<open>AddProblems\<close> assigns to each row the contest identifier it already
  carries (contest_repository.go, lines 137-139), so the caller's slice is unchanged.
\<close>

record 'db ContestRepository =
  Create :: "Contest \<Rightarrow> 'db \<Rightarrow> string option \<times> Contest \<times> 'db"
  FindActiveByUserID :: "UUID \<Rightarrow> 'db \<Rightarrow> Contest option \<times> string option"
  Update :: "Contest \<Rightarrow> 'db \<Rightarrow> string option \<times> 'db"
  Delete :: "UUID \<Rightarrow> 'db \<Rightarrow> string option \<times> 'db"
  AddProblems :: "UUID \<Rightarrow> ContestProblem list \<Rightarrow> 'db \<Rightarrow> string option \<times> 'db"

text \<open>
  The values \<^verbatim>\<open>time.Now()\<close> returns at its three call sites in \<^verbatim>\<open>CreateContest\<close>:
  inside \<^verbatim>\<open>IsExpired\<close> (line 59), at line 61 and at line 82.
\<close>

record ClockReadings =
  nowIsExpired :: Time
  nowEndedAt :: Time
  nowStartedAt :: Time

section \<open>CreateContest (contest_service.go, lines 42-118)\<close>

text \<open>The loop of lines 92-100, from index \<open>i\<close> on.\<close>

fun makeContestProblems :: "nat \<Rightarrow> UUID \<Rightarrow> Problem list \<Rightarrow> ContestProblem list" where
  "makeContestProblems i contestID [] = []"
| "makeContestProblems i contestID (p # rest) =
     \<lparr>ContestID = contestID, ProblemID = Problem.ID p, Order = int i + 1,
      IsCompleted = False, Problem = p\<rparr>
     # makeContestProblems (Suc i) contestID rest"

text \<open>
  Lines 72-117: select the problems, create the contest, attach the ordered rows. The
  fields the literal of lines 79-84 does not set have their zero values.
\<close>

definition createNewContest ::
  "'db ContestRepository \<Rightarrow> ProblemRepository \<Rightarrow> Difficulty list \<Rightarrow> ClockReadings \<Rightarrow>
   UUID \<Rightarrow> CreateContestRequest \<Rightarrow> 'db \<Rightarrow> rng \<Rightarrow> (error + Contest) \<times> 'db \<times> rng" where
  "createNewContest contestRepo problemRepo arrival clock userID req db g =
     (case SelectProblemsForContest problemRepo arrival g userID (ProblemCount req) of
        (Inl e, g') \<Rightarrow> (Inl e, db, g')
      | (Inr selected, g') \<Rightarrow>
          (let contest =
                 \<lparr>Contest.ID = 0, UserID = userID,
                  DurationMinutes = CreateContestRequest.DurationMinutes req,
                  StartedAt = nowStartedAt clock, EndedAt = None,
                  Status = ContestStatusActive, CreatedAt = zeroTime,
                  UpdatedAt = zeroTime, ContestProblems = []\<rparr>
           in case Create contestRepo contest db of
                (Some e, created, db1) \<Rightarrow> (Inl (RepositoryError e), db1, g')
              | (None, created, db1) \<Rightarrow>
                  (let contestProblems =
                         makeContestProblems 0 (Contest.ID created) selected
                   in case AddProblems contestRepo (Contest.ID created) contestProblems db1 of
                        (Some e, db2) \<Rightarrow>
                          (Inl (RepositoryError e),
                           snd (Delete contestRepo (Contest.ID created) db2), g')
                      | (None, db2) \<Rightarrow>
                          (Inr (created\<lparr>ContestProblems := contestProblems\<rparr>), db2, g'))))"

text \<open>
  The whole method. A failed \<^verbatim>\<open>Update\<close> of the expired contest is logged and the method
  goes on (lines 64-66).
\<close>

definition CreateContest ::
  "'db ContestRepository \<Rightarrow> ProblemRepository \<Rightarrow> Difficulty list \<Rightarrow> ClockReadings \<Rightarrow>
   UUID \<Rightarrow> CreateContestRequest \<Rightarrow> 'db \<Rightarrow> rng \<Rightarrow> (error + Contest) \<times> 'db \<times> rng" where
  "CreateContest contestRepo problemRepo arrival clock userID req db g =
     (case FindActiveByUserID contestRepo userID db of
        (found, Some e) \<Rightarrow> (Inl (RepositoryError e), db, g)
      | (None, None) \<Rightarrow>
          createNewContest contestRepo problemRepo arrival clock userID req db g
      | (Some activeContest, None) \<Rightarrow>
          if IsExpired activeContest (nowIsExpired clock)
          then createNewContest contestRepo problemRepo arrival clock userID req
                 (snd (Update contestRepo
                         (activeContest\<lparr>Status := ContestStatusCompleted,
                                         EndedAt := Some (nowEndedAt clock)\<rparr>) db)) g
          else (Inl ErrActiveContestExists, db, g))"

text \<open>
  An in-memory contest repository for concrete runs, after contest_repository.go: rows
  are kept in insertion order, \<^verbatim>\<open>Create\<close> assigns the next free key, \<^verbatim>\<open>Update\<close>
  replaces the row with the same key, and no operation fails.
\<close>

record MemoryDB =
  contestRows :: "Contest list"
  contestProblemRows :: "ContestProblem list"
  nextKey :: UUID

definition memoryRepository :: "MemoryDB ContestRepository" where
  "memoryRepository =
     \<lparr>Create = (\<lambda>c db.
         (let created = c\<lparr>Contest.ID := nextKey db\<rparr>
          in (None, created,
              db\<lparr>contestRows := contestRows db @ [created], nextKey := Suc (nextKey db)\<rparr>))),
      FindActiveByUserID = (\<lambda>userID db.
         (find (\<lambda>c. UserID c = userID \<and> Status c = ContestStatusActive) (contestRows db),
          None)),
      Update = (\<lambda>c db.
         (None,
          db\<lparr>contestRows :=
               map (\<lambda>row. if Contest.ID row = Contest.ID c then c else row) (contestRows db)\<rparr>)),
      Delete = (\<lambda>key db.
         (None,
          db\<lparr>contestRows := filter (\<lambda>row. Contest.ID row \<noteq> key) (contestRows db),
             contestProblemRows :=
               filter (\<lambda>row. ContestID row \<noteq> key) (contestProblemRows db)\<rparr>)),
      AddProblems = (\<lambda>contestID rows db.
         (None,
          db\<lparr>contestProblemRows :=
               contestProblemRows db @ map (\<lambda>row. row\<lparr>ContestID := contestID\<rparr>) rows\<rparr>))\<rparr>"

text \<open>A user with one running contest, a clock and a request, for concrete runs.\<close>

definition sampleContest :: Contest where
  "sampleContest =
     \<lparr>Contest.ID = 1, UserID = 7, DurationMinutes = 60, StartedAt = 0, EndedAt = None,
      Status = ContestStatusActive, CreatedAt = 0, UpdatedAt = 0, ContestProblems = []\<rparr>"

definition sampleDB :: MemoryDB where
  "sampleDB = \<lparr>contestRows = [sampleContest], contestProblemRows = [], nextKey = 2\<rparr>"

definition sampleClock :: "Time \<Rightarrow> ClockReadings" where
  "sampleClock t = \<lparr>nowIsExpired = t, nowEndedAt = t + 1, nowStartedAt = t + 2\<rparr>"

definition sampleRequest :: CreateContestRequest where
  "sampleRequest = \<lparr>ProblemCount = 3, DurationMinutes = 30\<rparr>"

text \<open>What the run of that request leaves once the running contest has expired.\<close>

definition sampleSelected :: "Problem list" where
  "sampleSelected =
     [sampleProblem DifficultyEasy 1, sampleProblem DifficultyEasy 2,
      sampleProblem DifficultyMedium 3, sampleProblem DifficultyHard 4]"

definition sampleCreated :: Contest where
  "sampleCreated =
     \<lparr>Contest.ID = 2, UserID = 7, DurationMinutes = 30, StartedAt = 3660000000002,
      EndedAt = None, Status = ContestStatusActive, CreatedAt = 0, UpdatedAt = 0,
      ContestProblems = makeContestProblems 0 2 sampleSelected\<rparr>"

definition sampleDBAfter :: MemoryDB where
  "sampleDBAfter =
     \<lparr>contestRows =
        [sampleContest\<lparr>Status := ContestStatusCompleted, EndedAt := Some 3660000000001\<rparr>,
         sampleCreated\<lparr>ContestProblems := []\<rparr>],
      contestProblemRows = makeContestProblems 0 2 sampleSelected,
      nextKey = 3\<rparr>"

section \<open>Facts about calculateDistribution\<close>

lemma difficulty_distinct [simp]:
  "DifficultyEasy \<noteq> DifficultyMedium" "DifficultyMedium \<noteq> DifficultyEasy"
  "DifficultyEasy \<noteq> DifficultyHard" "DifficultyHard \<noteq> DifficultyEasy"
  "DifficultyMedium \<noteq> DifficultyHard" "DifficultyHard \<noteq> DifficultyMedium"
  by (simp_all add: DifficultyEasy_def DifficultyMedium_def DifficultyHard_def)

lemma goDiv_nonneg: "0 \<le> a \<Longrightarrow> 0 < b \<Longrightarrow> goDiv a b = a div b"
  by (simp add: goDiv_def)

lemma tierCounts_switch_small:
  "1 \<le> cnt \<Longrightarrow> cnt \<le> 3 \<Longrightarrow>
   tierCounts (distributionSwitch cnt) = (if cnt = 1 then (1, 0, 0) else (cnt - 1, 1, 0))"
  by (simp add: tierCounts_def distributionSwitch_def getCount_def Let_def)

lemma tierCounts_switch_mid:
  "3 < cnt \<Longrightarrow> cnt \<le> 5 \<Longrightarrow> tierCounts (distributionSwitch cnt) = (2, 2, cnt - 4)"
  by (simp add: tierCounts_def distributionSwitch_def getCount_def)

lemma tierCounts_switch_upper:
  "5 < cnt \<Longrightarrow> cnt \<le> 10 \<Longrightarrow>
   tierCounts (distributionSwitch cnt) =
     (cnt * 3 div 10, cnt * 4 div 10, cnt - cnt * 3 div 10 - cnt * 4 div 10)"
  by (simp add: tierCounts_def distributionSwitch_def getCount_def Let_def goDiv_nonneg)

lemma tierCounts_switch_large:
  "10 < cnt \<Longrightarrow>
   tierCounts (distributionSwitch cnt) =
     (cnt div 4, cnt div 2, cnt - cnt div 4 - cnt div 2)"
  by (simp add: tierCounts_def distributionSwitch_def getCount_def Let_def goDiv_nonneg)

lemma tierCounts_ensureOne:
  "tierCounts (ensureOnePerDifficulty difficulties d) =
     (case tierCounts d of (e, m, h) \<Rightarrow> (spec_bump e, spec_bump m, spec_bump h))"
  by (simp add: tierCounts_def difficulties_def getCount_def spec_bump_def)

lemma floor_three_tenths: "\<lfloor>real_of_int c * 0.3\<rfloor> = c * 3 div 10"
proof -
  have "real_of_int c * 0.3 = real_of_int (c * 3) / real_of_int 10" by simp
  then show ?thesis by (simp only: floor_divide_of_int_eq)
qed

lemma floor_four_tenths: "\<lfloor>real_of_int c * 0.4\<rfloor> = c * 4 div 10"
proof -
  have "real_of_int c * 0.4 = real_of_int (c * 4) / real_of_int 10" by simp
  then show ?thesis by (simp only: floor_divide_of_int_eq)
qed

lemma floor_quarter: "\<lfloor>real_of_int c / 4\<rfloor> = c div 4"
  using floor_divide_of_int_eq [of c 4, where ?'a = real] by simp

lemma floor_half: "\<lfloor>real_of_int c / 2\<rfloor> = c div 2"
  using floor_divide_of_int_eq [of c 2, where ?'a = real] by simp

lemma tierCounts_switch_spec:
  "1 \<le> cnt \<Longrightarrow> tierCounts (distributionSwitch cnt) = spec_policy_table cnt"
proof -
  assume pos: "1 \<le> cnt"
  consider "cnt \<le> 3" | "3 < cnt" "cnt \<le> 5" | "5 < cnt" "cnt \<le> 10" | "10 < cnt"
    by linarith
  then show ?thesis
  proof cases
    case 1
    with pos show ?thesis
      by (simp add: tierCounts_switch_small spec_policy_table_def)
  next
    case 2
    then show ?thesis
      by (simp add: tierCounts_switch_mid spec_policy_table_def)
  next
    case 3
    have "spec_policy_table cnt =
        (cnt * 3 div 10, cnt * 4 div 10, cnt - cnt * 3 div 10 - cnt * 4 div 10)"
      unfolding spec_policy_table_def floor_three_tenths floor_four_tenths
      using 3 by (simp add: Let_def)
    with 3 show ?thesis
      by (simp only: tierCounts_switch_upper)
  next
    case 4
    have "spec_policy_table cnt = (cnt div 4, cnt div 2, cnt - cnt div 4 - cnt div 2)"
      unfolding spec_policy_table_def floor_quarter floor_half
      using 4 by (simp add: Let_def)
    with 4 show ?thesis
      by (simp only: tierCounts_switch_large)
  qed
qed

lemma dom_distributionSwitch:
  "dom (distributionSwitch cnt) \<subseteq> {DifficultyEasy, DifficultyMedium, DifficultyHard}"
  by (auto simp: distributionSwitch_def Let_def split: if_splits)

lemma dom_ensureOne:
  "dom (ensureOnePerDifficulty ds d) \<subseteq> dom d \<union> set ds"
proof (induction ds arbitrary: d)
  case Nil
  show ?case by simp
next
  case (Cons a ds)
  let ?d = "if getCount d a = 0 then d(a \<mapsto> 1) else d"
  have "dom (ensureOnePerDifficulty ds ?d) \<subseteq> dom ?d \<union> set ds"
    by (rule Cons.IH)
  also have "\<dots> \<subseteq> dom d \<union> set (a # ds)"
    by auto
  finally show ?case by simp
qed

section \<open>Facts about the selection\<close>

lemma Intn_range:
  "0 < n \<Longrightarrow> \<exists>r g'. Intn n g = Inr (r, g') \<and> 0 \<le> r \<and> r < n"
  by (cases g) (simp_all add: Intn_def)


lemma shuffleLoop_perm:
  "n \<le> int (length xs) \<Longrightarrow>
   \<exists>ys g'. shuffleLoop i n xs g = Inr (ys, g') \<and> mset ys = mset xs"
proof (induction i n xs g rule: shuffleLoop.induct)
  case (1 i n shuffled g)
  show ?case
  proof (cases "int i < n")
    case False
    then show ?thesis by simp
  next
    case True
    with "1.prems" have pos: "0 < int (length shuffled) - int i" by linarith
    from Intn_range [OF pos, of g] obtain r g' where
      r: "Intn (int (length shuffled) - int i) g = Inr (r, g')" "0 \<le> r"
         "r < int (length shuffled) - int i"
      by blast
    define j where "j = i + nat r"
    have bounds: "i < length shuffled \<and> j < length shuffled"
      using r pos by (simp add: j_def)
    let ?next = "shuffled[i := shuffled ! j, j := shuffled ! i]"
    have "n \<le> int (length ?next)" using "1.prems" by simp
    from "1.IH" [OF True r(1) refl j_def bounds this]
    obtain ys g'' where ih: "shuffleLoop (Suc i) n ?next g' = Inr (ys, g'')" "mset ys = mset ?next"
      by blast
    have "mset ?next = mset shuffled"
      using bounds by (simp add: mset_swap)
    moreover have "shuffleLoop i n shuffled g = shuffleLoop (Suc i) n ?next g'"
      using True r(1) bounds by (subst shuffleLoop.simps) (simp add: j_def Let_def)
    ultimately show ?thesis using ih by simp
  qed
qed

lemma mset_take_subset: "mset (take k xs) \<subseteq># mset xs"
proof -
  have "mset xs = mset (take k xs) + mset (drop k xs)"
    by (metis append_take_drop_id mset_append)
  then show ?thesis by simp
qed

lemma randomSelect_negative:
  "n < 0 \<Longrightarrow> \<exists>msg. randomSelect ps n g = Inl (RuntimePanic msg)"
  by (simp add: randomSelect_def)

lemma randomSelect_draws:
  assumes "0 \<le> n" "n \<le> int (length ps)"
  shows "\<exists>sel g'. randomSelect ps n g = Inr (sel, g')
           \<and> mset sel \<subseteq># mset ps \<and> int (length sel) = n"
proof (cases "n \<ge> int (length ps)")
  case True
  with assms show ?thesis by (simp add: randomSelect_def)
next
  case False
  from shuffleLoop_perm [OF assms(2), of 0 g] obtain ys g' where
    ys: "shuffleLoop 0 n ps g = Inr (ys, g')" "mset ys = mset ps"
    by blast
  have len: "length ys = length ps"
    using ys(2) by (rule mset_eq_length)
  have "randomSelect ps n g = Inr (take (nat n) ys, g')"
    using False assms(1) ys(1) by (simp add: randomSelect_def)
  moreover have "mset (take (nat n) ys) \<subseteq># mset ps"
    using mset_take_subset [of "nat n" ys] ys(2) by simp
  moreover have "int (length (take (nat n) ys)) = n"
    using assms len by simp
  ultimately show ?thesis by blast
qed

lemma insertOrdered_insort:
  "insertOrdered lessByWeight x ys = insort_key (\<lambda>p. Weight (Difficulty p)) x ys"
  by (induction ys) (auto simp: lessByWeight_def)

lemma sortSlice_sort_key:
  "sortSlice lessByWeight xs = sort_key (\<lambda>p. Weight (Difficulty p)) xs"
proof -
  have "insertOrdered lessByWeight = insort_key (\<lambda>p. Weight (Difficulty p))"
    by (intro ext) (rule insertOrdered_insort)
  then show ?thesis by (simp add: sortSlice_def sort_key_def)
qed

lemma mset_sortSlice: "mset (sortSlice lessByWeight xs) = mset xs"
  by (simp add: sortSlice_sort_key)

lemma sorted_sortSlice:
  "sorted (map (\<lambda>p. Weight (Difficulty p)) (sortSlice lessByWeight xs))"
  by (simp add: sortSlice_sort_key sorted_sort_key)


lemma tier_step:
  assumes "0 \<le> getCount dn d + sf"
  shows "\<exists>taken sf' g'.
           spec_tier_step (getCount dn d + sf) (getPool pbd d) taken sf' \<and> 0 \<le> sf'
           \<and> (\<forall>rest sel. selectByDistribution (d # rest) dn pbd sel sf g
                  = selectByDistribution rest dn pbd (sel @ taken) sf' g')"
proof (cases "int (length (getPool pbd d)) < getCount dn d + sf")
  case True
  then have "spec_tier_step (getCount dn d + sf) (getPool pbd d) (getPool pbd d)
      (getCount dn d + sf - int (length (getPool pbd d)))"
    by (simp add: spec_tier_step_def)
  moreover have "0 \<le> getCount dn d + sf - int (length (getPool pbd d))"
    using True by simp
  moreover have "\<forall>rest sel. selectByDistribution (d # rest) dn pbd sel sf g
      = selectByDistribution rest dn pbd (sel @ getPool pbd d)
          (getCount dn d + sf - int (length (getPool pbd d))) g"
    using True by (simp add: Let_def)
  ultimately show ?thesis by blast
next
  case False
  then have le: "getCount dn d + sf \<le> int (length (getPool pbd d))" by simp
  from randomSelect_draws [OF assms le, of g] obtain taken g' where
    t: "randomSelect (getPool pbd d) (getCount dn d + sf) g = Inr (taken, g')"
       "mset taken \<subseteq># mset (getPool pbd d)" "int (length taken) = getCount dn d + sf"
    by blast
  have "spec_tier_step (getCount dn d + sf) (getPool pbd d) taken 0"
    using False t by (simp add: spec_tier_step_def)
  moreover have "\<forall>rest sel. selectByDistribution (d # rest) dn pbd sel sf g
      = selectByDistribution rest dn pbd (sel @ taken) 0 g'"
    using False t(1) by (simp add: Let_def)
  ultimately show ?thesis by (metis order_refl)
qed

lemma select_three_tiers:
  assumes "0 \<le> getCount dn DifficultyEasy" "0 \<le> getCount dn DifficultyMedium"
    "0 \<le> getCount dn DifficultyHard"
  shows "\<exists>tE tM tH sE sM sH g'.
      selectByDistribution difficulties dn pbd [] 0 g = Inr (tE @ tM @ tH, sH, g')
      \<and> spec_tier_step (getCount dn DifficultyEasy + 0) (getPool pbd DifficultyEasy) tE sE
      \<and> spec_tier_step (getCount dn DifficultyMedium + sE) (getPool pbd DifficultyMedium) tM sM
      \<and> spec_tier_step (getCount dn DifficultyHard + sM) (getPool pbd DifficultyHard) tH sH"
proof -
  have "0 \<le> getCount dn DifficultyEasy + 0" using assms(1) by simp
  from tier_step [OF this, of pbd g] obtain tE sE g1 where
    e: "spec_tier_step (getCount dn DifficultyEasy + 0) (getPool pbd DifficultyEasy) tE sE"
       "0 \<le> sE"
       "\<And>rest sel. selectByDistribution (DifficultyEasy # rest) dn pbd sel 0 g
          = selectByDistribution rest dn pbd (sel @ tE) sE g1"
    by blast
  have "0 \<le> getCount dn DifficultyMedium + sE" using assms(2) e(2) by simp
  from tier_step [OF this, of pbd g1] obtain tM sM g2 where
    m: "spec_tier_step (getCount dn DifficultyMedium + sE) (getPool pbd DifficultyMedium) tM sM"
       "0 \<le> sM"
       "\<And>rest sel. selectByDistribution (DifficultyMedium # rest) dn pbd sel sE g1
          = selectByDistribution rest dn pbd (sel @ tM) sM g2"
    by blast
  have "0 \<le> getCount dn DifficultyHard + sM" using assms(3) m(2) by simp
  from tier_step [OF this, of pbd g2] obtain tH sH g3 where
    h: "spec_tier_step (getCount dn DifficultyHard + sM) (getPool pbd DifficultyHard) tH sH"
       "0 \<le> sH"
       "\<And>rest sel. selectByDistribution (DifficultyHard # rest) dn pbd sel sM g2
          = selectByDistribution rest dn pbd (sel @ tH) sH g3"
    by blast
  have "selectByDistribution difficulties dn pbd [] 0 g = Inr (tE @ tM @ tH, sH, g3)"
    unfolding difficulties_def by (simp only: e(3) m(3) h(3) selectByDistribution.simps(1) append_Nil append_assoc)
  with e(1) m(1) h(1) show ?thesis by blast
qed

lemma randomSelect_success:
  assumes "randomSelect ps n g = Inr (sel, g')"
  shows "mset sel \<subseteq># mset ps"
proof (cases "n \<ge> int (length ps)")
  case True
  with assms show ?thesis by (simp add: randomSelect_def)
next
  case False
  show ?thesis
  proof (cases "n < 0")
    case True
    with randomSelect_negative [of n ps g] assms show ?thesis by auto
  next
    case nonneg: False
    with False randomSelect_draws [of n ps g] assms show ?thesis by auto
  qed
qed

lemma select_success_mset:
  "selectByDistribution ds dn pbd sel sf g = Inr (sel', sf', g') \<Longrightarrow>
   mset sel' \<subseteq># mset sel + mset (concat (map (getPool pbd) ds))"
proof (induction ds arbitrary: sel sf g)
  case Nil
  then show ?case by simp
next
  case (Cons d ds)
  show ?case
  proof (cases "int (length (getPool pbd d)) < getCount dn d + sf")
    case True
    with Cons.prems have "selectByDistribution ds dn pbd (sel @ getPool pbd d)
        (getCount dn d + sf - int (length (getPool pbd d))) g = Inr (sel', sf', g')"
      by (simp add: Let_def)
    from Cons.IH [OF this] show ?thesis by (simp add: ac_simps)
  next
    case False
    with Cons.prems obtain taken g1 where
      t: "randomSelect (getPool pbd d) (getCount dn d + sf) g = Inr (taken, g1)"
         "selectByDistribution ds dn pbd (sel @ taken) 0 g1 = Inr (sel', sf', g')"
      by (auto simp: Let_def split: sum.splits)
    from Cons.IH [OF t(2)]
    have "mset sel' \<subseteq># mset sel + mset taken + mset (concat (map (getPool pbd) ds))"
      by simp
    also have "\<dots> \<subseteq># mset sel + mset (getPool pbd d) + mset (concat (map (getPool pbd) ds))"
      using randomSelect_success [OF t(1)] by (simp add: subset_mset.add_mono)
    finally show ?thesis by (simp add: ac_simps)
  qed
qed


lemma tierCounts_calculateDistribution:
  "tierCounts (calculateDistribution cnt) =
     (if cnt \<ge> 3
      then (case tierCounts (distributionSwitch cnt) of
              (e, m, h) \<Rightarrow> (spec_bump e, spec_bump m, spec_bump h))
      else tierCounts (distributionSwitch cnt))"
  by (simp add: calculateDistribution_def tierCounts_ensureOne)

lemma calculateDistribution_sum:
  assumes "1 \<le> cnt"
  shows "\<exists>e m h. tierCounts (calculateDistribution cnt) = (e, m, h)
           \<and> 0 \<le> e \<and> 0 \<le> m \<and> 0 \<le> h
           \<and> e + m + h = (if cnt = 3 \<or> cnt = 4 then cnt + 1 else cnt)"
proof -
  consider "cnt \<le> 3" | "3 < cnt" "cnt \<le> 5" | "5 < cnt" "cnt \<le> 10" | "10 < cnt"
    by linarith
  then show ?thesis
  proof cases
    case 1
    with assms have "cnt = 1 \<or> cnt = 2 \<or> cnt = 3" by linarith
    then show ?thesis
      by (auto simp: tierCounts_calculateDistribution tierCounts_switch_small spec_bump_def)
  next
    case 2
    then have "cnt = 4 \<or> cnt = 5" by linarith
    then show ?thesis
      by (auto simp: tierCounts_calculateDistribution tierCounts_switch_mid spec_bump_def)
  next
    case 3
    then have "cnt = 6 \<or> cnt = 7 \<or> cnt = 8 \<or> cnt = 9 \<or> cnt = 10" by linarith
    then show ?thesis
      by (auto simp: tierCounts_calculateDistribution tierCounts_switch_upper spec_bump_def)
  next
    case 4
    then have e: "0 < cnt div 4" and m: "0 < cnt div 2" and h: "0 < cnt - cnt div 4 - cnt div 2"
      by linarith+
    from 4 have "tierCounts (calculateDistribution cnt)
        = (cnt div 4, cnt div 2, cnt - cnt div 4 - cnt div 2)"
      using e m h by (simp add: tierCounts_calculateDistribution tierCounts_switch_large spec_bump_def)
    with 4 e m h show ?thesis by simp
  qed
qed

lemma calculateDistribution_nonneg:
  assumes "1 \<le> cnt"
  shows "0 \<le> getCount (calculateDistribution cnt) DifficultyEasy"
    and "0 \<le> getCount (calculateDistribution cnt) DifficultyMedium"
    and "0 \<le> getCount (calculateDistribution cnt) DifficultyHard"
  using calculateDistribution_sum [OF assms] by (auto simp: tierCounts_def)

lemma collectResults_lookup:
  "collectResults (map (fetchProblems repo uid) arrival) m d =
     (if d \<in> set arrival \<and> snd (FindUnsolvedByUserAndDifficulty repo uid d) = None
      then Some (fst (FindUnsolvedByUserAndDifficulty repo uid d))
      else m d)"
proof (induction arrival arbitrary: m)
  case Nil
  show ?case by simp
next
  case (Cons a arrival)
  obtain ps e where f: "FindUnsolvedByUserAndDifficulty repo uid a = (ps, e)"
    by (cases "FindUnsolvedByUserAndDifficulty repo uid a")
  have r: "fetchProblems repo uid a = \<lparr>difficulty = a, problems = ps, err = e\<rparr>"
    by (simp add: fetchProblems_def f)
  show ?case
    by (cases e) (auto simp: Cons.IH r f)
qed

lemma getPool_fetchByDifficulty:
  "d \<in> set arrival \<Longrightarrow>
   getPool (fetchByDifficulty repo arrival uid) d = fetchedPool repo uid d"
  by (cases "FindUnsolvedByUserAndDifficulty repo uid d")
     (auto simp: getPool_def fetchByDifficulty_def collectResults_lookup fetchedPool_def
           split: option.splits)

lemma arrivalOrder_mem:
  "arrivalOrder arrival \<Longrightarrow>
   DifficultyEasy \<in> set arrival \<and> DifficultyMedium \<in> set arrival \<and> DifficultyHard \<in> set arrival"
  by (simp add: arrivalOrder_def difficulties_def)

lemma assembleContest_result:
  assumes "selectByDistribution difficulties dn pbd [] 0 g = Inr (sel, sf, g')"
  shows "assembleContest dn pbd cnt g =
           (if int (length sel) < cnt \<and> sel = [] then Inl ErrNotEnoughProblems
            else Inr (sortSlice lessByWeight sel), g')"
  using assms by (simp add: assembleContest_def)

lemma assembleContest_success:
  assumes "fst (assembleContest dn pbd cnt g) = Inr ps"
  shows "\<exists>sel sf g'. selectByDistribution difficulties dn pbd [] 0 g = Inr (sel, sf, g')
           \<and> ps = sortSlice lessByWeight sel"
  using assms by (auto simp: assembleContest_def split: sum.splits if_splits)

lemma length_sortSlice: "length (sortSlice lessByWeight xs) = length xs"
  using mset_sortSlice [of xs] by (rule mset_eq_length)

lemma tierSize_mset: "mset ps = mset qs \<Longrightarrow> tierSize d ps = tierSize d qs"
proof -
  assume "mset ps = mset qs"
  then have "mset (filter (\<lambda>p. Difficulty p = d) ps) = mset (filter (\<lambda>p. Difficulty p = d) qs)"
    by (simp only: mset_filter)
  then show ?thesis unfolding tierSize_def by (rule mset_eq_length)
qed

lemma tierSize_append: "tierSize d (ps @ qs) = tierSize d ps + tierSize d qs"
  by (simp add: tierSize_def)

lemma tierSize_uniform:
  "\<forall>p\<in>set ps. Difficulty p = d \<Longrightarrow> tierSize d' ps = (if d' = d then length ps else 0)"
  by (induction ps) (auto simp: tierSize_def)

lemma Select_outcome:
  assumes "1 \<le> cnt" "arrivalOrder arrival"
  shows "\<exists>tE tM tH sE sM sH g'.
      spec_tier_step (getCount (calculateDistribution cnt) DifficultyEasy + 0)
        (fetchedPool repo uid DifficultyEasy) tE sE
      \<and> spec_tier_step (getCount (calculateDistribution cnt) DifficultyMedium + sE)
          (fetchedPool repo uid DifficultyMedium) tM sM
      \<and> spec_tier_step (getCount (calculateDistribution cnt) DifficultyHard + sM)
          (fetchedPool repo uid DifficultyHard) tH sH
      \<and> SelectProblemsForContest repo arrival g uid cnt =
          (if tE @ tM @ tH = [] then Inl ErrNotEnoughProblems
           else Inr (sortSlice lessByWeight (tE @ tM @ tH)), g')"
proof -
  let ?dn = "calculateDistribution cnt"
  let ?pbd = "fetchByDifficulty repo arrival uid"
  note nn = calculateDistribution_nonneg [OF assms(1)]
  from select_three_tiers [OF nn, of ?pbd g] obtain tE tM tH sE sM sH g' where
    sel: "selectByDistribution difficulties ?dn ?pbd [] 0 g = Inr (tE @ tM @ tH, sH, g')"
    and e: "spec_tier_step (getCount ?dn DifficultyEasy + 0) (getPool ?pbd DifficultyEasy) tE sE"
    and m: "spec_tier_step (getCount ?dn DifficultyMedium + sE) (getPool ?pbd DifficultyMedium) tM sM"
    and h: "spec_tier_step (getCount ?dn DifficultyHard + sM) (getPool ?pbd DifficultyHard) tH sH"
    by blast
  note mem = arrivalOrder_mem [OF assms(2)]
  have pools: "getPool ?pbd DifficultyEasy = fetchedPool repo uid DifficultyEasy"
    "getPool ?pbd DifficultyMedium = fetchedPool repo uid DifficultyMedium"
    "getPool ?pbd DifficultyHard = fetchedPool repo uid DifficultyHard"
    using mem by (simp_all add: getPool_fetchByDifficulty)
  have "SelectProblemsForContest repo arrival g uid cnt =
      (if tE @ tM @ tH = [] then Inl ErrNotEnoughProblems
       else Inr (sortSlice lessByWeight (tE @ tM @ tH)), g')"
    using assembleContest_result [OF sel, of cnt] assms(1)
    by (auto simp: SelectProblemsForContest_def Let_def)
  with e m h show ?thesis unfolding pools by blast
qed

lemma sample_eval:
  "tierCounts (calculateDistribution 3) = (2, 1, 1)"
  "tierCounts (calculateDistribution 4) = (2, 2, 1)"
  "tierCounts (calculateDistribution 9) = (2, 3, 4)"
  "tierCounts (calculateDistribution 5) = (2, 2, 1)"
  by (simp_all add: tierCounts_def calculateDistribution_def distributionSwitch_def
      difficulties_def getCount_def goDiv_def)

lemma arrivalOrder_difficulties: "arrivalOrder difficulties"
  by (simp add: arrivalOrder_def difficulties_def)

lemma fetchedPool_sample:
  "fetchedPool (sampleRepository pools) uid d = (case pools d of None \<Rightarrow> [] | Some ps \<Rightarrow> ps)"
  by (simp add: fetchedPool_def sampleRepository_def split: option.splits)

lemma distinct_map_submset:
  assumes "mset xs \<subseteq># mset ys" and "distinct (map f ys)"
  shows "distinct (map f xs)"
proof -
  have sub: "mset (map f xs) \<subseteq># mset (map f ys)"
    using image_mset_subseteq_mono [OF assms(1), of f] by simp
  have le1: "count (mset (map f xs)) a \<le> 1" for a
  proof -
    have "count (mset (map f xs)) a \<le> count (mset (map f ys)) a"
      using sub by (rule mset_subset_eq_count)
    also have "\<dots> \<le> 1"
      using assms(2) by (simp add: distinct_count_atmost_1)
    finally show ?thesis .
  qed
  have "count (mset (map f xs)) a = (if a \<in> set (map f xs) then 1 else 0)" for a
  proof (cases "a \<in> set (map f xs)")
    case True
    then have "0 < count (mset (map f xs)) a" by (simp only: count_greater_zero_iff set_mset_mset)
    with le1 [of a] have "count (mset (map f xs)) a = 1" by linarith
    with True show ?thesis by (simp only: if_True)
  next
    case False
    then have "count (mset (map f xs)) a = 0" by (simp only: count_eq_zero_iff set_mset_mset not_False_eq_True)
    with False show ?thesis by (simp only: if_False)
  qed
  then show ?thesis by (simp only: distinct_count_atmost_1) simp
qed

lemma Select_success_mset:
  assumes "arrivalOrder arrival"
    and "fst (SelectProblemsForContest repo arrival g uid cnt) = Inr ps"
  shows "mset ps \<subseteq># mset (fetchedPool repo uid DifficultyEasy
                          @ fetchedPool repo uid DifficultyMedium
                          @ fetchedPool repo uid DifficultyHard)"
proof -
  let ?pbd = "fetchByDifficulty repo arrival uid"
  from assms(2) have "fst (assembleContest (calculateDistribution cnt) ?pbd cnt g) = Inr ps"
    by (simp add: SelectProblemsForContest_def Let_def)
  from assembleContest_success [OF this] obtain sel sf g' where
    s: "selectByDistribution difficulties (calculateDistribution cnt) ?pbd [] 0 g = Inr (sel, sf, g')"
    and ps: "ps = sortSlice lessByWeight sel"
    by blast
  note mem = arrivalOrder_mem [OF assms(1)]
  have "mset sel \<subseteq># mset [] + mset (concat (map (getPool ?pbd) difficulties))"
    using s by (rule select_success_mset)
  also have "concat (map (getPool ?pbd) difficulties)
      = fetchedPool repo uid DifficultyEasy @ fetchedPool repo uid DifficultyMedium
        @ fetchedPool repo uid DifficultyHard"
    using mem by (simp add: difficulties_def getPool_fetchByDifficulty)
  finally show ?thesis by (simp add: ps mset_sortSlice)
qed

lemma three_three_three:
  assumes tc: "tierCounts dn = (3, 3, 3)"
    and sizes: "length (getPool pbd DifficultyEasy) = 1"
      "length (getPool pbd DifficultyMedium) = 10" "length (getPool pbd DifficultyHard) = 10"
    and typed: "\<forall>d\<in>set difficulties. \<forall>p\<in>set (getPool pbd d). Difficulty p = d"
  shows "\<exists>ps. fst (assembleContest dn pbd c g) = Inr ps \<and> length ps = 9
           \<and> tierSize DifficultyEasy ps = 1 \<and> tierSize DifficultyMedium ps = 5
           \<and> tierSize DifficultyHard ps = 3"
proof -
  from tc have vals: "getCount dn DifficultyEasy = 3" "getCount dn DifficultyMedium = 3"
    "getCount dn DifficultyHard = 3"
    by (simp_all add: tierCounts_def)
  have nn: "0 \<le> getCount dn DifficultyEasy" "0 \<le> getCount dn DifficultyMedium"
    "0 \<le> getCount dn DifficultyHard"
    by (simp_all add: vals)
  from select_three_tiers [OF nn, of pbd g] obtain tE tM tH sE sM sH g' where
    sel: "selectByDistribution difficulties dn pbd [] 0 g = Inr (tE @ tM @ tH, sH, g')"
    and e: "spec_tier_step (getCount dn DifficultyEasy + 0) (getPool pbd DifficultyEasy) tE sE"
    and m: "spec_tier_step (getCount dn DifficultyMedium + sE) (getPool pbd DifficultyMedium) tM sM"
    and h: "spec_tier_step (getCount dn DifficultyHard + sM) (getPool pbd DifficultyHard) tH sH"
    by blast
  from e have e': "tE = getPool pbd DifficultyEasy" "sE = 2"
    by (simp_all add: spec_tier_step_def vals sizes)
  from m have m': "length tM = 5" "mset tM \<subseteq># mset (getPool pbd DifficultyMedium)" "sM = 0"
    by (simp_all add: spec_tier_step_def vals sizes e')
  from h have h': "length tH = 3" "mset tH \<subseteq># mset (getPool pbd DifficultyHard)"
    by (simp_all add: spec_tier_step_def vals sizes m')
  have tyE: "\<forall>p\<in>set tE. Difficulty p = DifficultyEasy"
    using typed by (simp add: e' difficulties_def)
  have "set tM \<subseteq> set (getPool pbd DifficultyMedium)"
    using set_mset_mono [OF m'(2)] by simp
  then have tyM: "\<forall>p\<in>set tM. Difficulty p = DifficultyMedium"
    using typed by (auto simp: difficulties_def)
  have "set tH \<subseteq> set (getPool pbd DifficultyHard)"
    using set_mset_mono [OF h'(2)] by simp
  then have tyH: "\<forall>p\<in>set tH. Difficulty p = DifficultyHard"
    using typed by (auto simp: difficulties_def)
  let ?sel = "tE @ tM @ tH"
  let ?ps = "sortSlice lessByWeight ?sel"
  have lenE: "length tE = 1" by (simp add: e' sizes)
  have ne: "?sel \<noteq> []" using lenE by auto
  have res: "fst (assembleContest dn pbd c g) = Inr ?ps"
    using assembleContest_result [OF sel, of c] ne by simp
  have len: "length ?ps = 9"
    by (simp add: length_sortSlice lenE m'(1) h'(1))
  have ts: "tierSize d ?ps = tierSize d tE + tierSize d tM + tierSize d tH" for d
    using tierSize_mset [OF mset_sortSlice, of d ?sel] by (simp add: tierSize_append)
  have "tierSize DifficultyEasy ?ps = 1"
    by (simp add: ts tierSize_uniform [OF tyE] tierSize_uniform [OF tyM]
        tierSize_uniform [OF tyH] lenE)
  moreover have "tierSize DifficultyMedium ?ps = 5"
    by (simp add: ts tierSize_uniform [OF tyE] tierSize_uniform [OF tyM]
        tierSize_uniform [OF tyH] m'(1))
  moreover have "tierSize DifficultyHard ?ps = 3"
    by (simp add: ts tierSize_uniform [OF tyE] tierSize_uniform [OF tyM]
        tierSize_uniform [OF tyH] h'(1))
  ultimately show ?thesis using res len by blast
qed

lemma getPool_samplePools:
  "getPool (samplePools es ms hs) DifficultyEasy = map (sampleProblem DifficultyEasy) es"
  "getPool (samplePools es ms hs) DifficultyMedium = map (sampleProblem DifficultyMedium) ms"
  "getPool (samplePools es ms hs) DifficultyHard = map (sampleProblem DifficultyHard) hs"
  by (simp_all add: getPool_def samplePools_def)

lemma samplePools_typed:
  "\<forall>d\<in>set difficulties. \<forall>p\<in>set (getPool (samplePools es ms hs) d). Difficulty p = d"
  by (auto simp: difficulties_def getPool_samplePools sampleProblem_def)

lemma shuffleLoop_error:
  "shuffleLoop i n xs g = Inl e \<Longrightarrow> \<exists>msg. e = RuntimePanic msg"
proof (induction i n xs g rule: shuffleLoop.induct)
  case (1 i n shuffled g)
  show ?case
  proof (cases "int i < n")
    case False
    with "1.prems" show ?thesis by simp
  next
    case True
    show ?thesis
    proof (cases "Intn (int (length shuffled) - int i) g")
      case (Inl e')
      with True "1.prems" have "e = e'" by (subst (asm) shuffleLoop.simps) simp
      with Inl show ?thesis by (auto simp: Intn_def split: if_splits list.splits)
    next
      case (Inr p)
      obtain r g' where p: "p = (r, g')" by (cases p)
      define j where "j = i + nat r"
      show ?thesis
      proof (cases "i < length shuffled \<and> j < length shuffled")
        case inb: True
        have "shuffleLoop i n shuffled g
            = shuffleLoop (Suc i) n (shuffled[i := shuffled ! j, j := shuffled ! i]) g'"
          using True Inr p inb by (subst shuffleLoop.simps) (simp add: j_def Let_def)
        with "1.prems" have "shuffleLoop (Suc i) n
            (shuffled[i := shuffled ! j, j := shuffled ! i]) g' = Inl e"
          by simp
        from "1.IH" [OF True Inr [unfolded p] refl j_def inb this] show ?thesis .
      next
        case False
        have "shuffleLoop i n shuffled g = Inl (RuntimePanic ''index out of range'')"
          using True Inr p False by (subst shuffleLoop.simps) (auto simp: j_def Let_def)
        with "1.prems" show ?thesis by auto
      qed
    qed
  qed
qed

lemma randomSelect_error:
  "randomSelect ps n g = Inl e \<Longrightarrow> \<exists>msg. e = RuntimePanic msg"
proof -
  assume a: "randomSelect ps n g = Inl e"
  show ?thesis
  proof (cases "shuffleLoop 0 n ps g")
    case (Inl e')
    with a have "e = e'"
      by (simp add: randomSelect_def del: shuffleLoop.simps split: if_splits)
    with Inl shuffleLoop_error show ?thesis by blast
  next
    case (Inr p)
    with a show ?thesis
      by (cases p) (auto simp add: randomSelect_def simp del: shuffleLoop.simps split: if_splits)
  qed
qed

lemma selectByDistribution_error:
  "selectByDistribution ds dn pbd sel sf g = Inl e \<Longrightarrow> \<exists>msg. e = RuntimePanic msg"
proof (induction ds arbitrary: sel sf g)
  case Nil
  then show ?case by simp
next
  case (Cons d ds)
  show ?case
  proof (cases "int (length (getPool pbd d)) < getCount dn d + sf")
    case True
    with Cons.prems have "selectByDistribution ds dn pbd (sel @ getPool pbd d)
        (getCount dn d + sf - int (length (getPool pbd d))) g = Inl e"
      by (simp add: Let_def)
    then show ?thesis by (rule Cons.IH)
  next
    case False
    show ?thesis
    proof (cases "randomSelect (getPool pbd d) (getCount dn d + sf) g")
      case (Inl e')
      with False Cons.prems have "e = e'" by (simp add: Let_def)
      with Inl show ?thesis by (auto dest: randomSelect_error)
    next
      case (Inr p)
      obtain taken g1 where p: "p = (taken, g1)" by (cases p)
      with False Inr Cons.prems have "selectByDistribution ds dn pbd (sel @ taken) 0 g1 = Inl e"
        by (simp add: Let_def)
      then show ?thesis by (rule Cons.IH)
    qed
  qed
qed

lemma Select_error:
  "fst (SelectProblemsForContest repo arrival g uid cnt) = Inl e \<Longrightarrow>
   e = ErrNotEnoughProblems \<or> (\<exists>msg. e = RuntimePanic msg)"
  by (auto simp: SelectProblemsForContest_def Let_def assembleContest_def
      split: sum.splits if_splits dest: selectByDistribution_error)

text \<open>A tier whose fetch reported an error is read as an empty pool.\<close>

lemma fetch_error_reads_as_empty_pool:
  assumes "d \<in> set arrival"
    and "snd (FindUnsolvedByUserAndDifficulty repo uid d) \<noteq> None"
  shows "getPool (fetchByDifficulty repo arrival uid) d = []"
  using assms
  by (cases "FindUnsolvedByUserAndDifficulty repo uid d")
     (auto simp: getPool_fetchByDifficulty fetchedPool_def)

text \<open>
  Counts below 1 are rejected by the binding of the request before the service is called.
  Handed to the selection all the same, a count of 0 gives an empty list and no error,
  and a negative count ends in the panic of \<^verbatim>\<open>shuffled[:n]\<close>.
\<close>

lemma zero_count_returns_empty_list:
  "fst (SelectProblemsForContest (sampleRepository (samplePools [] [] [])) difficulties [] 7 0)
     = Inr []"
  by code_simp

lemma negative_count_panics:
  "fst (SelectProblemsForContest (sampleRepository (samplePools [1] [2] [3])) difficulties [] 7 (- 1))
     = Inl (RuntimePanic ''slice bounds out of range'')"
  by code_simp

section \<open>Facts about CreateContest\<close>

lemma createNewContest_not_active_error:
  "fst (createNewContest contestRepo problemRepo arrival clock userID req db g)
     \<noteq> Inl ErrActiveContestExists"
proof -
  obtain r g' where s: "SelectProblemsForContest problemRepo arrival g userID (ProblemCount req) = (r, g')"
    by (cases "SelectProblemsForContest problemRepo arrival g userID (ProblemCount req)")
  show ?thesis
  proof (cases r)
    case (Inl e)
    with s have "fst (SelectProblemsForContest problemRepo arrival g userID (ProblemCount req)) = Inl e"
      by simp
    from Select_error [OF this] have "e \<noteq> ErrActiveContestExists" by auto
    with s Inl show ?thesis by (simp add: createNewContest_def)
  next
    case (Inr selected)
    with s show ?thesis
      by (auto simp: createNewContest_def Let_def split: prod.splits option.splits)
  qed
qed

lemma wrap64_in_range:
  assumes "- (2 ^ 63) \<le> x" and "x < 2 ^ 63"
  shows "wrap64 x = x"
proof -
  have "0 \<le> x + 2 ^ 63" and "x + 2 ^ 63 < 2 ^ 64"
    using assms by simp_all
  then have "(x + 2 ^ 63) mod 2 ^ 64 = x + 2 ^ 63"
    by (rule mod_pos_pos_trivial)
  then show ?thesis by (simp add: wrap64_def)
qed

lemma wrap64_minutes:
  assumes "- 153722867 \<le> m" and "m \<le> 153722867"
  shows "wrap64 (m * Minute) = m * Minute"
proof (rule wrap64_in_range)
  show "- (2 ^ 63) \<le> m * Minute"
    using assms(1) by (simp add: Minute_def)
  show "m * Minute < 2 ^ 63"
    using assms(2) by (simp add: Minute_def)
qed

lemma IsExpired_iff:
  "IsExpired c t \<longleftrightarrow>
     Status c = ContestStatusActive
     \<and> StartedAt c + wrap64 (Contest.DurationMinutes c * Minute) < t"
  by (simp add: IsExpired_def Let_def)

lemma IsExpired_in_range:
  assumes "- 153722867 \<le> Contest.DurationMinutes c"
    and "Contest.DurationMinutes c \<le> 153722867"
  shows "IsExpired c t \<longleftrightarrow>
     Status c = ContestStatusActive \<and> StartedAt c + Contest.DurationMinutes c * Minute < t"
  by (simp add: IsExpired_iff wrap64_minutes [OF assms])

text \<open>
  One minute beyond that range the product has wrapped to a negative duration: a contest
  started at instant 0 with 153722868 minutes to run counts as expired at instant 0.
\<close>

lemma IsExpired_wraps:
  "wrap64 (153722868 * Minute) = - 9223371993709551616
   \<and> IsExpired (sampleContest\<lparr>Contest.DurationMinutes := 153722868\<rparr>) 0"
  by code_simp

lemma length_makeContestProblems:
  "length (makeContestProblems i cid ps) = length ps"
  by (induction ps arbitrary: i) simp_all

lemma nth_makeContestProblems:
  "k < length ps \<Longrightarrow>
   makeContestProblems i cid ps ! k =
     \<lparr>ContestID = cid, ProblemID = Problem.ID (ps ! k), Order = int (i + k) + 1,
      IsCompleted = False, Problem = ps ! k\<rparr>"
proof (induction ps arbitrary: i k)
  case Nil
  then show ?case by simp
next
  case (Cons p ps)
  show ?case
  proof (cases k)
    case 0
    then show ?thesis by simp
  next
    case (Suc k')
    with Cons.prems have "k' < length ps" by simp
    from Cons.IH [OF this, of "Suc i"] Suc show ?thesis by simp
  qed
qed

lemma map_Order_makeContestProblems:
  "map Order (makeContestProblems i cid ps) = map int [Suc i..<Suc i + length ps]"
proof (induction ps arbitrary: i)
  case Nil
  show ?case by simp
next
  case (Cons p ps)
  have "[Suc i..<Suc i + length (p # ps)] = Suc i # [Suc (Suc i)..<Suc (Suc i) + length ps]"
    by (simp add: upt_rec)
  then show ?case by (simp add: Cons.IH)
qed

lemma createNewContest_success:
  assumes "createNewContest contestRepo problemRepo arrival clock userID req db g
             = (Inr contest, db', g')"
  shows "\<exists>selected dbc.
      fst (SelectProblemsForContest problemRepo arrival g userID (ProblemCount req)) = Inr selected
      \<and> AddProblems contestRepo (Contest.ID contest) (ContestProblems contest) dbc = (None, db')
      \<and> ContestProblems contest = makeContestProblems 0 (Contest.ID contest) selected"
  using assms
  by (auto simp: createNewContest_def Let_def split: prod.splits sum.splits option.splits)

lemma CreateContest_success:
  assumes "CreateContest contestRepo problemRepo arrival clock userID req db g
             = (Inr contest, db', g')"
  shows "\<exists>db0. createNewContest contestRepo problemRepo arrival clock userID req db0 g
             = (Inr contest, db', g')"
proof -
  obtain found e where f: "FindActiveByUserID contestRepo userID db = (found, e)"
    by (cases "FindActiveByUserID contestRepo userID db")
  from assms show ?thesis
    by (cases e; cases found) (auto simp: CreateContest_def f split: if_splits)
qed

section \<open>The planner\<close>

text \<open>
  Claim C2. For every positive count, the three entries of the map that
  calculateDistribution returns are the ones the specification's policy table gives
  (count = 1 all Easy; counts 2 and 3 give count-1, 1, 0; counts 4 and 5 give 2, 2,
  count-4; counts 6 to 10 give floor(0.3 count), floor(0.4 count) and the remainder;
  larger counts give floor(count/4), floor(count/2) and the remainder), after which,
  when count is at least 3, each entry that is 0 is replaced by 1 on its own, the other
  entries being left as they are. The map has no entry besides those three.
\<close>

theorem calculateDistribution_refines_spec:
  assumes "1 \<le> cnt"
  shows "tierCounts (calculateDistribution cnt) = spec_planDistribution cnt
       \<and> dom (calculateDistribution cnt)
           \<subseteq> {DifficultyEasy, DifficultyMedium, DifficultyHard}"
proof
  show "tierCounts (calculateDistribution cnt) = spec_planDistribution cnt"
    using assms
    by (simp add: calculateDistribution_def spec_planDistribution_def
        spec_floor_enforcement_def tierCounts_ensureOne tierCounts_switch_spec
        split: prod.splits)
  have "dom (ensureOnePerDifficulty difficulties (distributionSwitch cnt))
          \<subseteq> {DifficultyEasy, DifficultyMedium, DifficultyHard}"
    using dom_ensureOne [of difficulties "distributionSwitch cnt"]
      dom_distributionSwitch [of cnt]
    by (auto simp: difficulties_def)
  then show "dom (calculateDistribution cnt)
      \<subseteq> {DifficultyEasy, DifficultyMedium, DifficultyHard}"
    using dom_distributionSwitch [of cnt]
    by (simp add: calculateDistribution_def Let_def)
qed

theorem calculateDistribution_refines_spec_witness:
  "(1::int) \<le> 7
   \<and> tierCounts (calculateDistribution 7) = (2, 2, 3)
   \<and> spec_planDistribution 7 = (2, 2, 3)"
proof -
  have pos: "(1::int) \<le> 7" by simp
  have "spec_planDistribution 7 = (2, 2, 3)"
    by (simp add: spec_planDistribution_def spec_floor_enforcement_def
        spec_policy_table_def spec_bump_def)
  with calculateDistribution_refines_spec [OF pos] pos show ?thesis by simp
qed

text \<open>
  Claim C3, as amended. For every positive count the three entries of the distribution are
  non-negative, and they add up to the count itself, except for the counts 3 and 4, where
  the pass that raises an empty tier to 1 makes them add up to the count plus one.
\<close>

theorem calculateDistribution_total:
  assumes "1 \<le> cnt"
  shows "0 \<le> getCount (calculateDistribution cnt) DifficultyEasy
       \<and> 0 \<le> getCount (calculateDistribution cnt) DifficultyMedium
       \<and> 0 \<le> getCount (calculateDistribution cnt) DifficultyHard
       \<and> distributionTotal (calculateDistribution cnt)
           = (if cnt = 3 \<or> cnt = 4 then cnt + 1 else cnt)"
  using calculateDistribution_sum [OF assms]
  by (auto simp: tierCounts_def distributionTotal_def)

theorem calculateDistribution_total_witness:
  "(1::int) \<le> 9
   \<and> 0 \<le> getCount (calculateDistribution 9) DifficultyEasy
   \<and> 0 \<le> getCount (calculateDistribution 9) DifficultyMedium
   \<and> 0 \<le> getCount (calculateDistribution 9) DifficultyHard
   \<and> distributionTotal (calculateDistribution 9) = 9"
  using calculateDistribution_total [of 9] by simp

text \<open>
  Claim C3 as stated fails at count 3: the distribution is 2 Easy, 1 Medium, 1 Hard.
\<close>

theorem calculateDistribution_total_counterexample:
  "distributionTotal (calculateDistribution 3) \<noteq> 3"
  by (simp add: distributionTotal_def calculateDistribution_def distributionSwitch_def
      difficulties_def getCount_def)

section \<open>The sampler\<close>

text \<open>
  Claim C1. For a positive count, SelectProblemsForContest works through the tiers Easy,
  Medium, Hard with a shortfall that starts at 0. At each tier the number needed is the
  tier's entry of the distribution plus the shortfall; a pool smaller than that is taken
  whole and the deficit becomes the shortfall, otherwise exactly that many problems are
  drawn from the pool without replacement and the shortfall is reset to 0. The result is
  the three parts, sorted, or the not-enough-problems error when they are all empty.
  In particular, the assembly run on pools of sizes 1, 10 and 10 with the distribution
  3, 3, 3 returns 9 problems: 1 Easy, 5 Medium and 3 Hard.
\<close>

theorem shortfall_carries_forward:
  "(1 \<le> cnt \<and> arrivalOrder arrival \<longrightarrow>
      (\<exists>tE tM tH sE sM sH g'.
         spec_tier_step (getCount (calculateDistribution cnt) DifficultyEasy + 0)
           (fetchedPool repo uid DifficultyEasy) tE sE
         \<and> spec_tier_step (getCount (calculateDistribution cnt) DifficultyMedium + sE)
             (fetchedPool repo uid DifficultyMedium) tM sM
         \<and> spec_tier_step (getCount (calculateDistribution cnt) DifficultyHard + sM)
             (fetchedPool repo uid DifficultyHard) tH sH
         \<and> SelectProblemsForContest repo arrival g uid cnt =
             (if tE @ tM @ tH = [] then Inl ErrNotEnoughProblems
              else Inr (sortSlice lessByWeight (tE @ tM @ tH)), g')))
   \<and> (tierCounts dn = (3, 3, 3)
        \<and> length (getPool pbd DifficultyEasy) = 1
        \<and> length (getPool pbd DifficultyMedium) = 10
        \<and> length (getPool pbd DifficultyHard) = 10
        \<and> (\<forall>d\<in>set difficulties. \<forall>p\<in>set (getPool pbd d). Difficulty p = d) \<longrightarrow>
      (\<exists>ps. fst (assembleContest dn pbd c g0) = Inr ps \<and> length ps = 9
         \<and> tierSize DifficultyEasy ps = 1 \<and> tierSize DifficultyMedium ps = 5
         \<and> tierSize DifficultyHard ps = 3))"
  using Select_outcome [of cnt arrival repo uid g] three_three_three [of dn pbd c g0]
  by blast

theorem shortfall_carries_forward_witness:
  "((1::int) \<le> 9 \<and> arrivalOrder difficulties)
   \<and> (tierCounts (levelDistribution 3) = (3, 3, 3)
       \<and> length (getPool (samplePools [1] [2, 3, 4, 5, 6, 7, 8, 9, 10, 11]
            [12, 13, 14, 15, 16, 17, 18, 19, 20, 21]) DifficultyEasy) = 1
       \<and> length (getPool (samplePools [1] [2, 3, 4, 5, 6, 7, 8, 9, 10, 11]
            [12, 13, 14, 15, 16, 17, 18, 19, 20, 21]) DifficultyMedium) = 10
       \<and> length (getPool (samplePools [1] [2, 3, 4, 5, 6, 7, 8, 9, 10, 11]
            [12, 13, 14, 15, 16, 17, 18, 19, 20, 21]) DifficultyHard) = 10
       \<and> list_all
            (\<lambda>d. list_all (\<lambda>p. Difficulty p = d)
                   (getPool (samplePools [1] [2, 3, 4, 5, 6, 7, 8, 9, 10, 11]
                      [12, 13, 14, 15, 16, 17, 18, 19, 20, 21]) d))
            difficulties)
   \<and> (\<exists>tE tM tH sE sM sH g'.
         spec_tier_step (getCount (calculateDistribution 9) DifficultyEasy + 0)
           (fetchedPool (sampleRepository (samplePools [1] [2, 3, 4] [5, 6, 7, 8])) 7
              DifficultyEasy) tE sE
         \<and> spec_tier_step (getCount (calculateDistribution 9) DifficultyMedium + sE)
             (fetchedPool (sampleRepository (samplePools [1] [2, 3, 4] [5, 6, 7, 8])) 7
                DifficultyMedium) tM sM
         \<and> spec_tier_step (getCount (calculateDistribution 9) DifficultyHard + sM)
             (fetchedPool (sampleRepository (samplePools [1] [2, 3, 4] [5, 6, 7, 8])) 7
                DifficultyHard) tH sH
         \<and> SelectProblemsForContest (sampleRepository (samplePools [1] [2, 3, 4] [5, 6, 7, 8]))
             difficulties [] 7 9 =
             (if tE @ tM @ tH = [] then Inl ErrNotEnoughProblems
              else Inr (sortSlice lessByWeight (tE @ tM @ tH)), g'))
   \<and> (\<exists>ps. fst (assembleContest (levelDistribution 3)
                   (samplePools [1] [2, 3, 4, 5, 6, 7, 8, 9, 10, 11]
                      [12, 13, 14, 15, 16, 17, 18, 19, 20, 21]) 9 [3, 1, 4, 1, 5, 9, 2, 6])
              = Inr ps
          \<and> length ps = 9
          \<and> tierSize DifficultyEasy ps = 1 \<and> tierSize DifficultyMedium ps = 5
          \<and> tierSize DifficultyHard ps = 3)
   \<and> fst (assembleContest (levelDistribution 3)
             (samplePools [1] [2, 3, 4, 5, 6, 7, 8, 9, 10, 11]
                [12, 13, 14, 15, 16, 17, 18, 19, 20, 21]) 9 [3, 1, 4, 1, 5, 9, 2, 6])
       = Inr (map (sampleProblem DifficultyEasy) [1]
              @ map (sampleProblem DifficultyMedium) [5, 4, 8, 6, 11]
              @ map (sampleProblem DifficultyHard) [21, 15, 20])"
proof -
  have a: "(1::int) \<le> 9 \<and> arrivalOrder difficulties"
    by (simp add: arrivalOrder_difficulties)
  have b: "tierCounts (levelDistribution 3) = (3, 3, 3)
       \<and> length (getPool (samplePools [1] [2, 3, 4, 5, 6, 7, 8, 9, 10, 11]
            [12, 13, 14, 15, 16, 17, 18, 19, 20, 21]) DifficultyEasy) = 1
       \<and> length (getPool (samplePools [1] [2, 3, 4, 5, 6, 7, 8, 9, 10, 11]
            [12, 13, 14, 15, 16, 17, 18, 19, 20, 21]) DifficultyMedium) = 10
       \<and> length (getPool (samplePools [1] [2, 3, 4, 5, 6, 7, 8, 9, 10, 11]
            [12, 13, 14, 15, 16, 17, 18, 19, 20, 21]) DifficultyHard) = 10
       \<and> (\<forall>d\<in>set difficulties.
            \<forall>p\<in>set (getPool (samplePools [1] [2, 3, 4, 5, 6, 7, 8, 9, 10, 11]
                       [12, 13, 14, 15, 16, 17, 18, 19, 20, 21]) d). Difficulty p = d)"
    using samplePools_typed
    by (simp add: tierCounts_def levelDistribution_def getCount_def getPool_samplePools)
  have b': "list_all
            (\<lambda>d. list_all (\<lambda>p. Difficulty p = d)
                   (getPool (samplePools [1] [2, 3, 4, 5, 6, 7, 8, 9, 10, 11]
                      [12, 13, 14, 15, 16, 17, 18, 19, 20, 21]) d))
            difficulties"
    using samplePools_typed by (simp only: list_all_iff)
  have c: "fst (assembleContest (levelDistribution 3)
             (samplePools [1] [2, 3, 4, 5, 6, 7, 8, 9, 10, 11]
                [12, 13, 14, 15, 16, 17, 18, 19, 20, 21]) 9 [3, 1, 4, 1, 5, 9, 2, 6])
       = Inr (map (sampleProblem DifficultyEasy) [1]
              @ map (sampleProblem DifficultyMedium) [5, 4, 8, 6, 11]
              @ map (sampleProblem DifficultyHard) [21, 15, 20])"
    by code_simp
  from shortfall_carries_forward [of 9 difficulties
      "sampleRepository (samplePools [1] [2, 3, 4] [5, 6, 7, 8])" 7 "[]"
      "levelDistribution 3"
      "samplePools [1] [2, 3, 4, 5, 6, 7, 8, 9, 10, 11] [12, 13, 14, 15, 16, 17, 18, 19, 20, 21]"
      9 "[3, 1, 4, 1, 5, 9, 2, 6]"] a b b' c
  show ?thesis by blast
qed

text \<open>
  Claim C4 does not hold of the code: a tier whose fetch reports an error is logged and
  skipped, and the selection goes on as if that tier had no unsolved problem. Here the
  fetch of the Easy tier fails, and a request for 5 problems succeeds with 4 Medium and
  1 Hard problems.
\<close>

theorem failed_fetch_treated_as_empty_pool:
  "snd (FindUnsolvedByUserAndDifficulty
          (sampleRepository
             ((Map.empty(DifficultyMedium \<mapsto> map (sampleProblem DifficultyMedium) [1, 2, 3, 4]))
                (DifficultyHard \<mapsto> map (sampleProblem DifficultyHard) [5])))
          7 DifficultyEasy) = Some ''connection refused''
   \<and> fst (SelectProblemsForContest
          (sampleRepository
             ((Map.empty(DifficultyMedium \<mapsto> map (sampleProblem DifficultyMedium) [1, 2, 3, 4]))
                (DifficultyHard \<mapsto> map (sampleProblem DifficultyHard) [5])))
          difficulties [] 7 5)
     = Inr (map (sampleProblem DifficultyMedium) [1, 2, 3, 4]
            @ map (sampleProblem DifficultyHard) [5])"
  by code_simp

text \<open>
  Claim C5. For a positive count, SelectProblemsForContest fails with
  ErrNotEnoughProblems exactly when the list assembled from the three tiers is empty;
  a non-empty list is returned as a success, sorted and in full, also when it is shorter
  than the count asked for.
\<close>

theorem not_enough_iff_empty:
  assumes "1 \<le> cnt"
  shows "\<exists>sel sf g'.
      selectByDistribution difficulties (calculateDistribution cnt)
        (fetchByDifficulty repo arrival uid) [] 0 g = Inr (sel, sf, g')
      \<and> (fst (SelectProblemsForContest repo arrival g uid cnt) = Inl ErrNotEnoughProblems
           \<longleftrightarrow> sel = [])
      \<and> (sel \<noteq> [] \<longrightarrow>
            fst (SelectProblemsForContest repo arrival g uid cnt)
              = Inr (sortSlice lessByWeight sel)
            \<and> length (sortSlice lessByWeight sel) = length sel)"
proof -
  let ?dn = "calculateDistribution cnt"
  let ?pbd = "fetchByDifficulty repo arrival uid"
  note nn = calculateDistribution_nonneg [OF assms]
  from select_three_tiers [OF nn, of ?pbd g] obtain sel sf g' where
    s: "selectByDistribution difficulties ?dn ?pbd [] 0 g = Inr (sel, sf, g')"
    by blast
  have r: "SelectProblemsForContest repo arrival g uid cnt =
      (if sel = [] then Inl ErrNotEnoughProblems else Inr (sortSlice lessByWeight sel), g')"
    using assembleContest_result [OF s, of cnt] assms
    by (auto simp: SelectProblemsForContest_def Let_def)
  have "fst (SelectProblemsForContest repo arrival g uid cnt) = Inl ErrNotEnoughProblems
      \<longleftrightarrow> sel = []"
    by (simp add: r)
  moreover have "sel \<noteq> [] \<longrightarrow>
      fst (SelectProblemsForContest repo arrival g uid cnt) = Inr (sortSlice lessByWeight sel)
      \<and> length (sortSlice lessByWeight sel) = length sel"
    by (simp add: r length_sortSlice)
  ultimately show ?thesis using s by blast
qed

theorem not_enough_iff_empty_witness:
  "(1::int) \<le> 5
   \<and> fst (SelectProblemsForContest (sampleRepository (samplePools [1] [] []))
            difficulties [] 7 5) = Inr [sampleProblem DifficultyEasy 1]
   \<and> fst (SelectProblemsForContest (sampleRepository (samplePools [] [] []))
            difficulties [] 7 5) = Inl ErrNotEnoughProblems
   \<and> (\<exists>sel sf g'.
        selectByDistribution difficulties (calculateDistribution 5)
          (fetchByDifficulty (sampleRepository (samplePools [1] [] [])) difficulties 7)
          [] 0 [] = Inr (sel, sf, g')
        \<and> (fst (SelectProblemsForContest (sampleRepository (samplePools [1] [] []))
                  difficulties [] 7 5) = Inl ErrNotEnoughProblems \<longleftrightarrow> sel = [])
        \<and> (sel \<noteq> [] \<longrightarrow>
              fst (SelectProblemsForContest (sampleRepository (samplePools [1] [] []))
                     difficulties [] 7 5) = Inr (sortSlice lessByWeight sel)
              \<and> length (sortSlice lessByWeight sel) = length sel))"
proof -
  have pos: "(1::int) \<le> 5" by simp
  have a: "fst (SelectProblemsForContest (sampleRepository (samplePools [1] [] []))
            difficulties [] 7 5) = Inr [sampleProblem DifficultyEasy 1]"
    by code_simp
  have b: "fst (SelectProblemsForContest (sampleRepository (samplePools [] [] []))
            difficulties [] 7 5) = Inl ErrNotEnoughProblems"
    by code_simp
  from not_enough_iff_empty [OF pos, of "sampleRepository (samplePools [1] [] [])"
      difficulties 7 "[]"] pos a b
  show ?thesis by blast
qed

text \<open>
  Claim C6. When the pools of the three tiers hold no identifier twice, within a pool or
  across pools, every list SelectProblemsForContest returns holds no identifier twice,
  each of its problems comes from one of the three pools, and so a problem whose
  identifier is in none of the pools is not in the list.
\<close>

theorem selection_distinct_and_from_pools:
  assumes "arrivalOrder arrival"
    and "distinct (map Problem.ID (fetchedPool repo uid DifficultyEasy
                                   @ fetchedPool repo uid DifficultyMedium
                                   @ fetchedPool repo uid DifficultyHard))"
    and "fst (SelectProblemsForContest repo arrival g uid cnt) = Inr ps"
  shows "distinct (map Problem.ID ps)
       \<and> set ps \<subseteq> set (fetchedPool repo uid DifficultyEasy)
                  \<union> set (fetchedPool repo uid DifficultyMedium)
                  \<union> set (fetchedPool repo uid DifficultyHard)
       \<and> (x \<notin> Problem.ID ` (set (fetchedPool repo uid DifficultyEasy)
                             \<union> set (fetchedPool repo uid DifficultyMedium)
                             \<union> set (fetchedPool repo uid DifficultyHard))
            \<longrightarrow> x \<notin> Problem.ID ` set ps)"
proof -
  let ?pools = "fetchedPool repo uid DifficultyEasy @ fetchedPool repo uid DifficultyMedium
                @ fetchedPool repo uid DifficultyHard"
  have sub: "mset ps \<subseteq># mset ?pools"
    using assms(1,3) by (rule Select_success_mset)
  have d: "distinct (map Problem.ID ps)"
    using sub assms(2) by (rule distinct_map_submset)
  have "set_mset (mset ps) \<subseteq> set_mset (mset ?pools)"
    using sub by (rule set_mset_mono)
  then have s: "set ps \<subseteq> set (fetchedPool repo uid DifficultyEasy)
                  \<union> set (fetchedPool repo uid DifficultyMedium)
                  \<union> set (fetchedPool repo uid DifficultyHard)"
    by (simp add: Un_assoc)
  from d s show ?thesis by blast
qed

theorem selection_distinct_and_from_pools_witness:
  "arrivalOrder [DifficultyHard, DifficultyEasy, DifficultyMedium]
   \<and> distinct (map Problem.ID
        (fetchedPool (sampleRepository (samplePools [1, 2, 3, 4, 5] [6, 7, 8, 9, 10] [11, 12, 13, 14])) 7 DifficultyEasy
         @ fetchedPool (sampleRepository (samplePools [1, 2, 3, 4, 5] [6, 7, 8, 9, 10] [11, 12, 13, 14])) 7 DifficultyMedium
         @ fetchedPool (sampleRepository (samplePools [1, 2, 3, 4, 5] [6, 7, 8, 9, 10] [11, 12, 13, 14])) 7 DifficultyHard))
   \<and> fst (SelectProblemsForContest
          (sampleRepository (samplePools [1, 2, 3, 4, 5] [6, 7, 8, 9, 10] [11, 12, 13, 14]))
          [DifficultyHard, DifficultyEasy, DifficultyMedium] [3, 1, 4, 1, 5, 9, 2, 6] 7 9)
     = Inr (map (sampleProblem DifficultyEasy) [4, 3]
            @ map (sampleProblem DifficultyMedium) [10, 8, 6]
            @ map (sampleProblem DifficultyHard) [11, 12, 13, 14])
   \<and> 99 \<notin> Problem.ID `
        (set (fetchedPool (sampleRepository (samplePools [1, 2, 3, 4, 5] [6, 7, 8, 9, 10] [11, 12, 13, 14])) 7 DifficultyEasy)
         \<union> set (fetchedPool (sampleRepository (samplePools [1, 2, 3, 4, 5] [6, 7, 8, 9, 10] [11, 12, 13, 14])) 7 DifficultyMedium)
         \<union> set (fetchedPool (sampleRepository (samplePools [1, 2, 3, 4, 5] [6, 7, 8, 9, 10] [11, 12, 13, 14])) 7 DifficultyHard))
   \<and> distinct (map Problem.ID
        (map (sampleProblem DifficultyEasy) [4, 3]
         @ map (sampleProblem DifficultyMedium) [10, 8, 6]
         @ map (sampleProblem DifficultyHard) [11, 12, 13, 14]))
   \<and> 99 \<notin> Problem.ID `
        set (map (sampleProblem DifficultyEasy) [4, 3]
             @ map (sampleProblem DifficultyMedium) [10, 8, 6]
             @ map (sampleProblem DifficultyHard) [11, 12, 13, 14])"
proof -
  let ?repo = "sampleRepository (samplePools [1, 2, 3, 4, 5] [6, 7, 8, 9, 10] [11, 12, 13, 14])"
  let ?ps = "map (sampleProblem DifficultyEasy) [4, 3]
            @ map (sampleProblem DifficultyMedium) [10, 8, 6]
            @ map (sampleProblem DifficultyHard) [11, 12, 13, 14]"
  have pools: "fetchedPool ?repo 7 DifficultyEasy = map (sampleProblem DifficultyEasy) [1, 2, 3, 4, 5]"
    "fetchedPool ?repo 7 DifficultyMedium = map (sampleProblem DifficultyMedium) [6, 7, 8, 9, 10]"
    "fetchedPool ?repo 7 DifficultyHard = map (sampleProblem DifficultyHard) [11, 12, 13, 14]"
    by (simp_all add: fetchedPool_sample samplePools_def)
  have ord: "arrivalOrder [DifficultyHard, DifficultyEasy, DifficultyMedium]"
    by (auto simp: arrivalOrder_def difficulties_def)
  have dis: "distinct (map Problem.ID
      (fetchedPool ?repo 7 DifficultyEasy @ fetchedPool ?repo 7 DifficultyMedium
       @ fetchedPool ?repo 7 DifficultyHard))"
    unfolding pools by (simp add: sampleProblem_def)
  have run: "fst (SelectProblemsForContest ?repo
          [DifficultyHard, DifficultyEasy, DifficultyMedium] [3, 1, 4, 1, 5, 9, 2, 6] 7 9)
     = Inr ?ps"
    by code_simp
  have out: "99 \<notin> Problem.ID `
        (set (fetchedPool ?repo 7 DifficultyEasy) \<union> set (fetchedPool ?repo 7 DifficultyMedium)
         \<union> set (fetchedPool ?repo 7 DifficultyHard))"
    unfolding pools by (simp add: sampleProblem_def)
  from selection_distinct_and_from_pools [OF ord dis run, of 99] ord dis run out
  show ?thesis by blast
qed

text \<open>
  Claim C7. Every list SelectProblemsForContest returns is in non-decreasing order of
  difficulty weight, Easy weighing 1, Medium 2 and Hard 3, whatever the random source and
  the order in which the fetches completed.
\<close>

theorem selection_sorted_by_weight:
  assumes "fst (SelectProblemsForContest repo arrival g uid cnt) = Inr ps"
  shows "sorted (weights ps)
       \<and> Weight DifficultyEasy = 1 \<and> Weight DifficultyMedium = 2 \<and> Weight DifficultyHard = 3"
proof -
  from assms have "fst (assembleContest (calculateDistribution cnt)
      (fetchByDifficulty repo arrival uid) cnt g) = Inr ps"
    by (simp add: SelectProblemsForContest_def Let_def)
  from assembleContest_success [OF this] obtain sel where "ps = sortSlice lessByWeight sel"
    by blast
  then have "sorted (weights ps)"
    by (simp only: weights_def sorted_sortSlice)
  then show ?thesis by (simp add: Weight_def)
qed

theorem selection_sorted_by_weight_witness:
  "fst (SelectProblemsForContest
          (sampleRepository (samplePools [1, 2, 3, 4, 5] [6, 7, 8, 9, 10] [11, 12, 13, 14]))
          [DifficultyHard, DifficultyEasy, DifficultyMedium] [3, 1, 4, 1, 5, 9, 2, 6] 7 9)
     = Inr (map (sampleProblem DifficultyEasy) [4, 3]
            @ map (sampleProblem DifficultyMedium) [10, 8, 6]
            @ map (sampleProblem DifficultyHard) [11, 12, 13, 14])
   \<and> sorted (weights (map (sampleProblem DifficultyEasy) [4, 3]
                       @ map (sampleProblem DifficultyMedium) [10, 8, 6]
                       @ map (sampleProblem DifficultyHard) [11, 12, 13, 14]))
   \<and> weights (map (sampleProblem DifficultyEasy) [4, 3]
              @ map (sampleProblem DifficultyMedium) [10, 8, 6]
              @ map (sampleProblem DifficultyHard) [11, 12, 13, 14])
       = [1, 1, 2, 2, 2, 3, 3, 3, 3]"
proof -
  have run: "fst (SelectProblemsForContest
          (sampleRepository (samplePools [1, 2, 3, 4, 5] [6, 7, 8, 9, 10] [11, 12, 13, 14]))
          [DifficultyHard, DifficultyEasy, DifficultyMedium] [3, 1, 4, 1, 5, 9, 2, 6] 7 9)
     = Inr (map (sampleProblem DifficultyEasy) [4, 3]
            @ map (sampleProblem DifficultyMedium) [10, 8, 6]
            @ map (sampleProblem DifficultyHard) [11, 12, 13, 14])"
    by code_simp
  have w: "weights (map (sampleProblem DifficultyEasy) [4, 3]
              @ map (sampleProblem DifficultyMedium) [10, 8, 6]
              @ map (sampleProblem DifficultyHard) [11, 12, 13, 14])
       = [1, 1, 2, 2, 2, 3, 3, 3, 3]"
    by code_simp
  from selection_sorted_by_weight [OF run] run w show ?thesis by blast
qed

text \<open>
  Claim C8. For the counts 3 and 4 the distribution is 2, 1, 1 and 2, 2, 1, one more than
  the count in total; when each pool holds at least its entry, SelectProblemsForContest
  returns count + 1 problems. A returned list is always a permutation of the assembled
  one: the size check never removes a problem.
\<close>

theorem oversized_selection:
  assumes "cnt = 3 \<or> cnt = 4" and "arrivalOrder arrival"
    and "\<forall>d\<in>set difficulties.
           getCount (calculateDistribution cnt) d \<le> int (length (fetchedPool repo uid d))"
  shows "tierCounts (calculateDistribution cnt) = (2, cnt - 2, 1)
       \<and> distributionTotal (calculateDistribution cnt) = cnt + 1
       \<and> (\<exists>ps. fst (SelectProblemsForContest repo arrival g uid cnt) = Inr ps
              \<and> int (length ps) = cnt + 1)
       \<and> (fst (SelectProblemsForContest repo arrival g uid cnt) = Inr qs \<longrightarrow>
            (\<exists>sel sf g'.
               selectByDistribution difficulties (calculateDistribution cnt)
                 (fetchByDifficulty repo arrival uid) [] 0 g = Inr (sel, sf, g')
               \<and> mset qs = mset sel))"
proof -
  let ?dn = "calculateDistribution cnt"
  have tc: "tierCounts ?dn = (2, cnt - 2, 1)"
    using assms(1) sample_eval(1,2) by auto
  then have vals: "getCount ?dn DifficultyEasy = 2" "getCount ?dn DifficultyMedium = cnt - 2"
    "getCount ?dn DifficultyHard = 1"
    by (simp_all add: tierCounts_def)
  have pos: "1 \<le> cnt" using assms(1) by auto
  from Select_outcome [OF pos assms(2), of repo uid g] obtain tE tM tH sE sM sH g' where
    e: "spec_tier_step (getCount ?dn DifficultyEasy + 0) (fetchedPool repo uid DifficultyEasy) tE sE"
    and m: "spec_tier_step (getCount ?dn DifficultyMedium + sE)
              (fetchedPool repo uid DifficultyMedium) tM sM"
    and h: "spec_tier_step (getCount ?dn DifficultyHard + sM)
              (fetchedPool repo uid DifficultyHard) tH sH"
    and r: "SelectProblemsForContest repo arrival g uid cnt =
              (if tE @ tM @ tH = [] then Inl ErrNotEnoughProblems
               else Inr (sortSlice lessByWeight (tE @ tM @ tH)), g')"
    by blast
  have big: "getCount ?dn DifficultyEasy \<le> int (length (fetchedPool repo uid DifficultyEasy))"
    "getCount ?dn DifficultyMedium \<le> int (length (fetchedPool repo uid DifficultyMedium))"
    "getCount ?dn DifficultyHard \<le> int (length (fetchedPool repo uid DifficultyHard))"
    using assms(3) by (simp_all add: difficulties_def)
  from e big(1) have e': "int (length tE) = 2" "sE = 0"
    by (simp_all add: spec_tier_step_def vals split: if_splits)
  from m big(2) e'(2) have m': "int (length tM) = cnt - 2" "sM = 0"
    by (simp_all add: spec_tier_step_def vals split: if_splits)
  from h big(3) m'(2) have h': "int (length tH) = 1"
    by (simp_all add: spec_tier_step_def vals split: if_splits)
  have len: "int (length (tE @ tM @ tH)) = cnt + 1"
    using e'(1) m'(1) h' by simp
  then have ne: "tE @ tM @ tH \<noteq> []" using pos by auto
  have "fst (SelectProblemsForContest repo arrival g uid cnt)
      = Inr (sortSlice lessByWeight (tE @ tM @ tH))"
    using r ne by simp
  moreover have "int (length (sortSlice lessByWeight (tE @ tM @ tH))) = cnt + 1"
    using len by (simp only: length_sortSlice)
  moreover have "distributionTotal ?dn = cnt + 1"
    by (simp add: distributionTotal_def vals)
  moreover have "fst (SelectProblemsForContest repo arrival g uid cnt) = Inr qs \<longrightarrow>
      (\<exists>sel sf g'.
         selectByDistribution difficulties ?dn (fetchByDifficulty repo arrival uid) [] 0 g
           = Inr (sel, sf, g')
         \<and> mset qs = mset sel)"
    using assembleContest_success [of ?dn "fetchByDifficulty repo arrival uid" cnt g qs]
    by (auto simp: SelectProblemsForContest_def Let_def mset_sortSlice)
  ultimately show ?thesis using tc by blast
qed

theorem oversized_selection_witness:
  "((3::int) = 3 \<or> (3::int) = 4) \<and> arrivalOrder difficulties
   \<and> list_all
         (\<lambda>d. getCount (calculateDistribution 3) d
                \<le> int (length (fetchedPool (sampleRepository (samplePools [1, 2] [3] [4])) 7 d)))
         difficulties
   \<and> fst (SelectProblemsForContest (sampleRepository (samplePools [1, 2] [3] [4]))
             difficulties [] 7 3)
       = Inr [sampleProblem DifficultyEasy 1, sampleProblem DifficultyEasy 2,
              sampleProblem DifficultyMedium 3, sampleProblem DifficultyHard 4]
   \<and> tierCounts (calculateDistribution 3) = (2, 1, 1)
   \<and> distributionTotal (calculateDistribution 3) = 4
   \<and> (\<exists>ps. fst (SelectProblemsForContest (sampleRepository (samplePools [1, 2] [3] [4]))
                    difficulties [] 7 3) = Inr ps
          \<and> int (length ps) = 4)
   \<and> (\<exists>sel sf g'.
         selectByDistribution difficulties (calculateDistribution 3)
           (fetchByDifficulty (sampleRepository (samplePools [1, 2] [3] [4])) difficulties 7)
           [] 0 [] = Inr (sel, sf, g')
         \<and> mset [sampleProblem DifficultyEasy 1, sampleProblem DifficultyEasy 2,
                  sampleProblem DifficultyMedium 3, sampleProblem DifficultyHard 4] = mset sel)"
proof -
  have h1: "(3::int) = 3 \<or> (3::int) = 4" by simp
  have h3: "\<forall>d\<in>set difficulties.
         getCount (calculateDistribution 3) d
           \<le> int (length (fetchedPool (sampleRepository (samplePools [1, 2] [3] [4])) 7 d))"
    using sample_eval(1)
    by (simp add: difficulties_def tierCounts_def fetchedPool_sample samplePools_def)
  have h3': "list_all
         (\<lambda>d. getCount (calculateDistribution 3) d
                \<le> int (length (fetchedPool (sampleRepository (samplePools [1, 2] [3] [4])) 7 d)))
         difficulties"
    using h3 by (simp only: list_all_iff)
  have h4: "fst (SelectProblemsForContest (sampleRepository (samplePools [1, 2] [3] [4]))
             difficulties [] 7 3)
       = Inr [sampleProblem DifficultyEasy 1, sampleProblem DifficultyEasy 2,
              sampleProblem DifficultyMedium 3, sampleProblem DifficultyHard 4]"
    by code_simp
  from oversized_selection [OF h1 arrivalOrder_difficulties h3, of "[]"
      "[sampleProblem DifficultyEasy 1, sampleProblem DifficultyEasy 2,
        sampleProblem DifficultyMedium 3, sampleProblem DifficultyHard 4]"]
  show ?thesis using h1 h3' h4 arrivalOrder_difficulties by simp
qed

section \<open>Creating a contest\<close>

text \<open>
  Claim C9. CreateContest returns ErrActiveContestExists exactly when the repository
  finds an active contest of the user that IsExpired reports as not expired. When the
  contest found is expired, CreateContest hands it to Update with its status set to
  completed and its end time set, and goes on to create the new contest from the state
  Update leaves. A contest is expired when it is active and the current time is past its
  start plus its duration, the 64-bit product of its minutes and one minute; for a
  duration of at most 153722867 minutes in absolute value, which covers the 10 to 300
  minutes a request may ask for, that product is exact and the contest is expired when
  the current time is past its start plus its duration in minutes.
\<close>

theorem active_contest_gate:
  "(fst (CreateContest contestRepo problemRepo arrival clock userID req db g)
        = Inl ErrActiveContestExists
      \<longleftrightarrow> (\<exists>a. FindActiveByUserID contestRepo userID db = (Some a, None)
                \<and> \<not> IsExpired a (nowIsExpired clock)))
   \<and> (FindActiveByUserID contestRepo userID db = (Some c, None)
        \<and> IsExpired c (nowIsExpired clock) \<longrightarrow>
      CreateContest contestRepo problemRepo arrival clock userID req db g
        = createNewContest contestRepo problemRepo arrival clock userID req
            (snd (Update contestRepo
                    (c\<lparr>Status := ContestStatusCompleted,
                       EndedAt := Some (nowEndedAt clock)\<rparr>) db)) g
      \<and> fst (CreateContest contestRepo problemRepo arrival clock userID req db g)
          \<noteq> Inl ErrActiveContestExists)
   \<and> (IsExpired c t \<longleftrightarrow>
        Status c = ContestStatusActive
        \<and> StartedAt c + wrap64 (Contest.DurationMinutes c * Minute) < t)
   \<and> (- 153722867 \<le> Contest.DurationMinutes c \<and> Contest.DurationMinutes c \<le> 153722867
        \<longrightarrow>
      (IsExpired c t \<longleftrightarrow>
         Status c = ContestStatusActive
         \<and> StartedAt c + Contest.DurationMinutes c * Minute < t))"
proof -
  obtain found e where f: "FindActiveByUserID contestRepo userID db = (found, e)"
    by (cases "FindActiveByUserID contestRepo userID db")
  have one: "fst (CreateContest contestRepo problemRepo arrival clock userID req db g)
        = Inl ErrActiveContestExists
      \<longleftrightarrow> (\<exists>a. FindActiveByUserID contestRepo userID db = (Some a, None)
                \<and> \<not> IsExpired a (nowIsExpired clock))"
    using createNewContest_not_active_error [of contestRepo problemRepo arrival clock userID req db g]
      createNewContest_not_active_error [of contestRepo problemRepo arrival clock userID req
        "snd (Update contestRepo
               (the found\<lparr>Status := ContestStatusCompleted,
                           EndedAt := Some (nowEndedAt clock)\<rparr>) db)" g]
    by (cases e; cases found) (auto simp: CreateContest_def f)
  have two: "FindActiveByUserID contestRepo userID db = (Some c, None)
        \<and> IsExpired c (nowIsExpired clock) \<longrightarrow>
      CreateContest contestRepo problemRepo arrival clock userID req db g
        = createNewContest contestRepo problemRepo arrival clock userID req
            (snd (Update contestRepo
                    (c\<lparr>Status := ContestStatusCompleted,
                       EndedAt := Some (nowEndedAt clock)\<rparr>) db)) g
      \<and> fst (CreateContest contestRepo problemRepo arrival clock userID req db g)
          \<noteq> Inl ErrActiveContestExists"
    using createNewContest_not_active_error [of contestRepo problemRepo arrival clock userID req
        "snd (Update contestRepo
               (c\<lparr>Status := ContestStatusCompleted,
                    EndedAt := Some (nowEndedAt clock)\<rparr>) db)" g]
    by (auto simp: CreateContest_def)
  have three: "- 153722867 \<le> Contest.DurationMinutes c
        \<and> Contest.DurationMinutes c \<le> 153722867 \<longrightarrow>
      (IsExpired c t \<longleftrightarrow>
         Status c = ContestStatusActive
         \<and> StartedAt c + Contest.DurationMinutes c * Minute < t)"
    using IsExpired_in_range [of c t] by blast
  show ?thesis using one two three IsExpired_iff [of c t] by blast
qed

theorem active_contest_gate_witness:
  "FindActiveByUserID memoryRepository 7 sampleDB = (Some sampleContest, None)
   \<and> - 153722867 \<le> Contest.DurationMinutes sampleContest
   \<and> Contest.DurationMinutes sampleContest \<le> 153722867
   \<and> (IsExpired sampleContest 3660000000000 \<longleftrightarrow>
        Status sampleContest = ContestStatusActive
        \<and> StartedAt sampleContest + Contest.DurationMinutes sampleContest * Minute
            < 3660000000000)
   \<and> IsExpired sampleContest (nowIsExpired (sampleClock 3660000000000))
   \<and> \<not> IsExpired sampleContest (nowIsExpired (sampleClock 3540000000000))
   \<and> fst (CreateContest memoryRepository (sampleRepository (samplePools [1, 2] [3] [4]))
            difficulties (sampleClock 3540000000000) 7 sampleRequest sampleDB [])
       = Inl ErrActiveContestExists
   \<and> CreateContest memoryRepository (sampleRepository (samplePools [1, 2] [3] [4]))
        difficulties (sampleClock 3660000000000) 7 sampleRequest sampleDB []
       = (Inr sampleCreated, sampleDBAfter, [])
   \<and> CreateContest memoryRepository (sampleRepository (samplePools [1, 2] [3] [4]))
        difficulties (sampleClock 3660000000000) 7 sampleRequest sampleDB []
       = createNewContest memoryRepository (sampleRepository (samplePools [1, 2] [3] [4]))
           difficulties (sampleClock 3660000000000) 7 sampleRequest
           (snd (Update memoryRepository
                   (sampleContest\<lparr>Status := ContestStatusCompleted,
                                   EndedAt := Some (nowEndedAt (sampleClock 3660000000000))\<rparr>)
                   sampleDB)) []
   \<and> fst (CreateContest memoryRepository (sampleRepository (samplePools [1, 2] [3] [4]))
            difficulties (sampleClock 3660000000000) 7 sampleRequest sampleDB [])
       \<noteq> Inl ErrActiveContestExists"
proof -
  have a: "FindActiveByUserID memoryRepository 7 sampleDB = (Some sampleContest, None)"
    by code_simp
  have r1: "- 153722867 \<le> Contest.DurationMinutes sampleContest"
    by code_simp
  have r2: "Contest.DurationMinutes sampleContest \<le> 153722867"
    by code_simp
  have r3: "IsExpired sampleContest 3660000000000 \<longleftrightarrow>
        Status sampleContest = ContestStatusActive
        \<and> StartedAt sampleContest + Contest.DurationMinutes sampleContest * Minute
            < 3660000000000"
    using active_contest_gate [where contestRepo = memoryRepository and userID = 7
        and db = sampleDB and clock = "sampleClock 3660000000000" and c = sampleContest
        and t = 3660000000000
        and problemRepo = "sampleRepository (samplePools [1, 2] [3] [4])"
        and arrival = difficulties and req = sampleRequest and g = "[]"] r1 r2
    by blast
  have b: "IsExpired sampleContest (nowIsExpired (sampleClock 3660000000000))"
    by code_simp
  have c: "\<not> IsExpired sampleContest (nowIsExpired (sampleClock 3540000000000))"
    by code_simp
  have d: "fst (CreateContest memoryRepository (sampleRepository (samplePools [1, 2] [3] [4]))
            difficulties (sampleClock 3540000000000) 7 sampleRequest sampleDB [])
       = Inl ErrActiveContestExists"
    using active_contest_gate [where contestRepo = memoryRepository and userID = 7
        and db = sampleDB and clock = "sampleClock 3540000000000"
        and problemRepo = "sampleRepository (samplePools [1, 2] [3] [4])"
        and arrival = difficulties and req = sampleRequest and g = "[]"] a c
    by blast
  have e: "CreateContest memoryRepository (sampleRepository (samplePools [1, 2] [3] [4]))
        difficulties (sampleClock 3660000000000) 7 sampleRequest sampleDB []
       = (Inr sampleCreated, sampleDBAfter, [])"
    by code_simp
  have f: "CreateContest memoryRepository (sampleRepository (samplePools [1, 2] [3] [4]))
        difficulties (sampleClock 3660000000000) 7 sampleRequest sampleDB []
       = createNewContest memoryRepository (sampleRepository (samplePools [1, 2] [3] [4]))
           difficulties (sampleClock 3660000000000) 7 sampleRequest
           (snd (Update memoryRepository
                   (sampleContest\<lparr>Status := ContestStatusCompleted,
                                   EndedAt := Some (nowEndedAt (sampleClock 3660000000000))\<rparr>)
                   sampleDB)) []
   \<and> fst (CreateContest memoryRepository (sampleRepository (samplePools [1, 2] [3] [4]))
            difficulties (sampleClock 3660000000000) 7 sampleRequest sampleDB [])
       \<noteq> Inl ErrActiveContestExists"
    using active_contest_gate [where contestRepo = memoryRepository and userID = 7
        and db = sampleDB and clock = "sampleClock 3660000000000" and c = sampleContest
        and problemRepo = "sampleRepository (samplePools [1, 2] [3] [4])"
        and arrival = difficulties and req = sampleRequest and g = "[]"] a b
    by blast
  show ?thesis
    by (rule conjI [OF a conjI [OF r1 conjI [OF r2 conjI [OF r3
          conjI [OF b conjI [OF c conjI [OF d conjI [OF e f]]]]]]]])
qed

text \<open>
  Claim C10. When CreateContest succeeds, the rows it has handed to AddProblems, which are
  the rows of the contest it returns, are the selected problems in their order, the i-th
  of them (counting from 1) carrying Order = i: the orders are 1 to n, without a gap.
\<close>

theorem contest_problems_numbered:
  assumes "CreateContest contestRepo problemRepo arrival clock userID req db g
             = (Inr contest, db', g')"
  shows "\<exists>selected dbc.
      fst (SelectProblemsForContest problemRepo arrival g userID (ProblemCount req)) = Inr selected
      \<and> AddProblems contestRepo (Contest.ID contest) (ContestProblems contest) dbc = (None, db')
      \<and> length (ContestProblems contest) = length selected
      \<and> map Order (ContestProblems contest) = map int [1..<Suc (length selected)]
      \<and> (\<forall>i<length selected.
            Order (ContestProblems contest ! i) = int i + 1
            \<and> Problem (ContestProblems contest ! i) = selected ! i
            \<and> ProblemID (ContestProblems contest ! i) = Problem.ID (selected ! i)
            \<and> ContestID (ContestProblems contest ! i) = Contest.ID contest)"
proof -
  from CreateContest_success [OF assms] obtain db0 where
    "createNewContest contestRepo problemRepo arrival clock userID req db0 g
       = (Inr contest, db', g')"
    by blast
  from createNewContest_success [OF this] obtain selected dbc where
    s: "fst (SelectProblemsForContest problemRepo arrival g userID (ProblemCount req)) = Inr selected"
    and a: "AddProblems contestRepo (Contest.ID contest) (ContestProblems contest) dbc = (None, db')"
    and c: "ContestProblems contest = makeContestProblems 0 (Contest.ID contest) selected"
    by blast
  have len: "length (ContestProblems contest) = length selected"
    by (simp add: c length_makeContestProblems)
  have ord: "map Order (ContestProblems contest) = map int [1..<Suc (length selected)]"
    using map_Order_makeContestProblems [of 0 "Contest.ID contest" selected]
    by (simp add: c)
  have nth: "\<forall>i<length selected.
            Order (ContestProblems contest ! i) = int i + 1
            \<and> Problem (ContestProblems contest ! i) = selected ! i
            \<and> ProblemID (ContestProblems contest ! i) = Problem.ID (selected ! i)
            \<and> ContestID (ContestProblems contest ! i) = Contest.ID contest"
    by (simp add: c nth_makeContestProblems)
  from s a len ord nth show ?thesis by blast
qed

theorem contest_problems_numbered_witness:
  "CreateContest memoryRepository (sampleRepository (samplePools [1, 2] [3] [4]))
      difficulties (sampleClock 3660000000000) 7 sampleRequest sampleDB []
     = (Inr sampleCreated, sampleDBAfter, [])
   \<and> map Order (ContestProblems sampleCreated) = [1, 2, 3, 4]
   \<and> map ProblemID (ContestProblems sampleCreated) = [1, 2, 3, 4]
   \<and> contestProblemRows sampleDBAfter = ContestProblems sampleCreated
   \<and> (\<exists>selected dbc.
         fst (SelectProblemsForContest (sampleRepository (samplePools [1, 2] [3] [4]))
                difficulties [] 7 (ProblemCount sampleRequest)) = Inr selected
         \<and> AddProblems memoryRepository (Contest.ID sampleCreated)
              (ContestProblems sampleCreated) dbc = (None, sampleDBAfter)
         \<and> length (ContestProblems sampleCreated) = length selected
         \<and> map Order (ContestProblems sampleCreated) = map int [1..<Suc (length selected)]
         \<and> (\<forall>i<length selected.
               Order (ContestProblems sampleCreated ! i) = int i + 1
               \<and> Problem (ContestProblems sampleCreated ! i) = selected ! i
               \<and> ProblemID (ContestProblems sampleCreated ! i) = Problem.ID (selected ! i)
               \<and> ContestID (ContestProblems sampleCreated ! i) = Contest.ID sampleCreated))"
proof -
  have run: "CreateContest memoryRepository (sampleRepository (samplePools [1, 2] [3] [4]))
      difficulties (sampleClock 3660000000000) 7 sampleRequest sampleDB []
     = (Inr sampleCreated, sampleDBAfter, [])"
    by code_simp
  have o1: "map Order (ContestProblems sampleCreated) = [1, 2, 3, 4]"
    by code_simp
  have o2: "map ProblemID (ContestProblems sampleCreated) = [1, 2, 3, 4]"
    by code_simp
  have o3: "contestProblemRows sampleDBAfter = ContestProblems sampleCreated"
    by code_simp
  note t = contest_problems_numbered [OF run]
  show ?thesis
    by (rule conjI [OF run conjI [OF o1 conjI [OF o2 conjI [OF o3 t]]]])
qed

end
